theory Spec2Isabelle
  imports Complex_Main "HOL-Library.Word"
begin

section \<open>JavaScript values used by the tracker server\<close>

text \<open>
  The server is Node.js code.
  \<^item> \<open>number\<close> is an integer-valued Number, as \<open>parseInt\<close> produces it, or \<open>NaN\<close>.
    The integers are kept exact (a double is exact below \<open>2 ^ 53\<close>; Infinity is not
    modelled). The doubles of the TPMS equations have a type of their own further down.
  \<^item> A Buffer is a list of bytes, a string a list of characters (the server decodes
    buffers as ASCII, one character per byte).
  \<^item> \<open>undefined\<close> is \<open>None\<close>, and an exception thrown by the source is the \<open>Inl\<close> branch
    of a sum.
\<close>

datatype number = Num int | NaN

datatype error = Error string | TypeError | RangeError

type_synonym byte = "8 word"
type_synonym buffer = "byte list"

text \<open>Comparison operators of JavaScript: every comparison with \<open>NaN\<close> is false.\<close>

fun num_lt :: "number \<Rightarrow> number \<Rightarrow> bool" where
  "num_lt (Num a) (Num b) = (a < b)"
| "num_lt _ _ = False"

fun num_ge :: "number \<Rightarrow> number \<Rightarrow> bool" where
  "num_ge (Num a) (Num b) = (a \<ge> b)"
| "num_ge _ _ = False"

text \<open>Strict equality \<open>===\<close> on numbers: \<open>NaN === NaN\<close> is false.\<close>

fun num_eq :: "number \<Rightarrow> number \<Rightarrow> bool" where
  "num_eq (Num a) (Num b) = (a = b)"
| "num_eq _ _ = False"

text \<open>Truthiness of a number: \<open>0\<close> and \<open>NaN\<close> are falsy.\<close>

fun num_truthy :: "number \<Rightarrow> bool" where
  "num_truthy (Num a) = (a \<noteq> 0)"
| "num_truthy NaN = False"

subsection \<open>Strings\<close>

text \<open>\<open>s.padStart(n, c)\<close> for a one-character pad string.\<close>

definition padStart :: "nat \<Rightarrow> char \<Rightarrow> string \<Rightarrow> string" where
  "padStart n c s = replicate (n - length s) c @ s"

text \<open>\<open>s.slice(i, j)\<close>: negative indices count from the end, both are clamped.\<close>

definition js_index :: "nat \<Rightarrow> int \<Rightarrow> nat" where
  "js_index len i = (if i < 0 then nat (max (int len + i) 0) else min (nat i) len)"

definition js_slice :: "'a list \<Rightarrow> int \<Rightarrow> int \<Rightarrow> 'a list" where
  "js_slice s i j =
     (let from = js_index (length s) i; to = js_index (length s) j
      in take (to - from) (drop from s))"

text \<open>\<open>s.slice(i)\<close> and \<open>buffer.subarray(i)\<close>: up to the end.\<close>

definition js_slice_from :: "'a list \<Rightarrow> int \<Rightarrow> 'a list" where
  "js_slice_from s i = drop (js_index (length s) i) s"

text \<open>\<open>s[i]\<close>: \<open>undefined\<close> out of range.\<close>

definition js_char_at :: "string \<Rightarrow> int \<Rightarrow> string option" where
  "js_char_at s i = (if 0 \<le> i \<and> nat i < length s then Some [s ! nat i] else None)"

text \<open>
  \<open>s.split(sep)\<close> for a non-empty separator: the pieces between the occurrences of
  \<open>sep\<close>, scanning from the left; the result is never empty.
\<close>

function split_acc :: "string \<Rightarrow> string \<Rightarrow> string \<Rightarrow> string list" where
  "split_acc sep acc [] = [rev acc]"
| "split_acc sep acc (x # xs) =
     (if sep \<noteq> [] \<and> take (length sep) (x # xs) = sep
      then rev acc # split_acc sep [] (drop (length sep) (x # xs))
      else split_acc sep (x # acc) xs)"
  by pat_completeness auto
termination
  by (relation "measure (\<lambda>(sep, acc, s). length s)") auto

definition js_split :: "string \<Rightarrow> string \<Rightarrow> string list" where
  "js_split sep s = split_acc sep [] s"

subsection \<open>parseInt and Number.prototype.toString\<close>

definition is_ws :: "char \<Rightarrow> bool" where
  "is_ws c = (let n = (of_char c :: nat) in (9 \<le> n \<and> n \<le> 13) \<or> n = 32)"

definition digit_val :: "char \<Rightarrow> nat option" where
  "digit_val c =
     (let n = (of_char c :: nat)
      in if 48 \<le> n \<and> n \<le> 57 then Some (n - 48)
         else if 97 \<le> n \<and> n \<le> 122 then Some (n - 87)
         else if 65 \<le> n \<and> n \<le> 90 then Some (n - 55)
         else None)"

definition is_digit :: "nat \<Rightarrow> char \<Rightarrow> bool" where
  "is_digit r c = (case digit_val c of Some d \<Rightarrow> d < r | None \<Rightarrow> False)"

definition digits_value :: "nat \<Rightarrow> string \<Rightarrow> nat" where
  "digits_value r ds =
     foldl (\<lambda>a c. a * r + (case digit_val c of Some d \<Rightarrow> d | None \<Rightarrow> 0)) 0 ds"

text \<open>
  \<open>parseInt(s, radix)\<close> as ECMAScript defines it (radix \<open>0\<close> stands for an absent
  radix): leading white space is skipped, then an optional sign, then, when the radix
  is absent or sixteen, an optional \<open>0x\<close>; the longest prefix of digits of the radix
  is the value, and \<open>NaN\<close> when that prefix is empty.
\<close>

definition parseInt :: "string \<Rightarrow> nat \<Rightarrow> number" where
  "parseInt s radix =
     (let s1 = dropWhile is_ws s;
          neg = (take 1 s1 = ''-'');
          s2 = (if take 1 s1 = ''-'' \<or> take 1 s1 = ''+'' then drop 1 s1 else s1)
      in if radix \<noteq> 0 \<and> (radix < 2 \<or> 36 < radix) then NaN
         else
           let hasp = ((radix = 0 \<or> radix = 16) \<and> (take 2 s2 = ''0x'' \<or> take 2 s2 = ''0X''));
               s3 = (if hasp then drop 2 s2 else s2);
               r = (if hasp then 16 else if radix = 0 then 10 else radix);
               z = takeWhile (is_digit r) s3
           in if z = [] then NaN
              else Num ((if neg then - 1 else 1) * int (digits_value r z)))"

definition digit_char :: "nat \<Rightarrow> char" where
  "digit_char d = (if d < 10 then char_of (48 + d) else char_of (87 + d))"

function digits_of :: "nat \<Rightarrow> nat \<Rightarrow> string" where
  "digits_of r n =
     (if r < 2 then []
      else if n < r then [digit_char n]
      else digits_of r (n div r) @ [digit_char (n mod r)])"
  by pat_completeness auto
termination
  by (relation "measure (\<lambda>(r, n). n)") auto

declare digits_of.simps [simp del]

text \<open>\<open>x.toString(radix)\<close> for a number: a minus sign and the digits, or \<open>NaN\<close>.\<close>

fun Number_toString :: "nat \<Rightarrow> number \<Rightarrow> string" where
  "Number_toString r (Num i) =
     (if i < 0 then CHR ''-'' # digits_of r (nat (- i)) else digits_of r (nat i))"
| "Number_toString r NaN = ''NaN''"

section \<open>utilities.js\<close>

text \<open>\<open>ParseBinaryToUnsigned\<close>: \<open>parseInt(binaryString, 2)\<close>.\<close>

definition ParseBinaryToUnsigned :: "string \<Rightarrow> number" where
  "ParseBinaryToUnsigned binaryString = parseInt binaryString 2"

text \<open>
  \<open>ParseBinaryToSinged\<close> throws on a string that is empty, has a character other than
  \<open>0\<close> and \<open>1\<close>, or has length one (the negation of \<open>valid_signed_binary\<close>); otherwise
  it reads two's complement.
\<close>

definition is_binary_string :: "string \<Rightarrow> bool" where
  "is_binary_string s = (s \<noteq> [] \<and> list_all (\<lambda>c. c = CHR ''0'' \<or> c = CHR ''1'') s)"

definition valid_signed_binary :: "string \<Rightarrow> bool" where
  "valid_signed_binary s = (s \<noteq> [] \<and> is_binary_string s \<and> length s \<noteq> 1)"

definition num_times_sign :: "int \<Rightarrow> number \<Rightarrow> number" where
  "num_times_sign sg x = (case x of Num a \<Rightarrow> Num (sg * a) | NaN \<Rightarrow> NaN)"

definition ParseBinaryToSinged :: "string \<Rightarrow> error + number" where
  "ParseBinaryToSinged binaryString =
     (if \<not> valid_signed_binary binaryString
      then Inl (Error ''Invalid binary string'')
      else
        let sign = (if take 1 binaryString = ''1'' then - 1 else 1 :: int);
            absoluteValue = parseInt binaryString 2;
            absoluteValue' =
              (if sign = - 1
               then (case absoluteValue of
                       Num a \<Rightarrow> Num (2 ^ length binaryString - a)
                     | NaN \<Rightarrow> NaN)
               else absoluteValue)
        in Inr (num_times_sign sign absoluteValue'))"

text \<open>\<open>ParseHexStringToBinary\<close>: \<open>parseInt(hexString, 16).toString(2).padStart(size, '0')\<close>.\<close>

definition ParseHexStringToBinary :: "string \<Rightarrow> nat \<Rightarrow> string" where
  "ParseHexStringToBinary hexString size' =
     padStart size' (CHR ''0'') (Number_toString 2 (parseInt hexString 16))"

text \<open>
  \<open>ParseHexStringToSignedInt\<close>: the binary string is never \<open>undefined\<close>, so the signed
  parse always runs, and its exception is not caught here.
\<close>

definition ParseHexStringToSignedInt :: "string \<Rightarrow> nat \<Rightarrow> error + number option" where
  "ParseHexStringToSignedInt hexString size' =
     (case ParseBinaryToSinged (ParseHexStringToBinary hexString size') of
        Inl e \<Rightarrow> Inl e
      | Inr v \<Rightarrow> Inr (Some v))"

text \<open>
  \<open>GetIntSliceFromBinary(inputNum, binaryLength, slice, signed)\<close>; \<open>None\<close> is the
  source's \<open>undefined\<close>. The slice is \<open>"a~b"\<close> for an inclusive range or \<open>"a"\<close> for one
  bit, bit \<open>0\<close> being the last character of the padded binary string.
\<close>

definition GetIntSliceFromBinary ::
  "number \<Rightarrow> nat \<Rightarrow> string \<Rightarrow> bool \<Rightarrow> error + number option" where
  "GetIntSliceFromBinary inputNum binaryLength slice' signed' =
     (let binaryString0 = Number_toString 2 inputNum
      in if length binaryString0 > binaryLength then Inr None
         else
           let binaryString = padStart binaryLength (CHR ''0'') binaryString0;
               output =
                 (if CHR ''~'' \<in> set slice' then
                    (let parts = js_split ''~'' slice';
                         start = (case parts of s # _ \<Rightarrow> parseInt s 0 | [] \<Rightarrow> NaN);
                         end' = (case parts of _ # e # _ \<Rightarrow> parseInt e 0 | _ \<Rightarrow> NaN)
                     in if num_lt start end' \<and> num_ge start (Num 0)
                           \<and> num_lt end' (Num (int binaryLength))
                        then (case (start, end') of
                                (Num a, Num b) \<Rightarrow>
                                  Some (js_slice binaryString
                                          (int binaryLength - b - 1) (int binaryLength - a))
                              | _ \<Rightarrow> None)
                        else None)
                  else (case parseInt slice' 0 of
                          Num p \<Rightarrow>
                            if p < int binaryLength
                            then js_char_at binaryString (int binaryLength - p - 1)
                            else None
                        | NaN \<Rightarrow> None))
           in case output of
                None \<Rightarrow> Inr None
              | Some out \<Rightarrow>
                  if signed'
                  then (case ParseBinaryToSinged out of
                          Inl e \<Rightarrow> Inl e | Inr v \<Rightarrow> Inr (Some v))
                  else Inr (Some (ParseBinaryToUnsigned out)))"

text \<open>\<open>IsStringEmptyOrSpaces\<close>: the string matches \<open>/^ *$/\<close>.\<close>

definition IsStringEmptyOrSpaces :: "string \<Rightarrow> bool" where
  "IsStringEmptyOrSpaces str = list_all (\<lambda>c. c = CHR '' '') str"

subsection \<open>Buffers\<close>

text \<open>\<open>buffer.toString('hex')\<close>: two lower-case hexadecimal digits for each byte.\<close>

definition byte_hex :: "byte \<Rightarrow> string" where
  "byte_hex b = [digit_char (unat b div 16), digit_char (unat b mod 16)]"

definition toString_hex :: "buffer \<Rightarrow> string" where
  "toString_hex buf = concat (map byte_hex buf)"

text \<open>\<open>buffer.toString('ascii')\<close>: Node clears the high bit of every byte.\<close>

definition toString_ascii :: "buffer \<Rightarrow> string" where
  "toString_ascii buf = map (\<lambda>b. char_of (unat b mod 128)) buf"

text \<open>\<open>Buffer.from(s, 'ascii')\<close>: one byte for each character.\<close>

definition from_ascii :: "string \<Rightarrow> buffer" where
  "from_ascii s = map (\<lambda>c. of_nat (of_char c)) s"

text \<open>
  \<open>Buffer.from(s, 'hex')\<close>: pairs of hexadecimal digits, stopping at the first pair that
  is not one; a trailing single character is dropped.
\<close>

fun from_hex :: "string \<Rightarrow> buffer" where
  "from_hex (a # b # rest) =
     (if is_digit 16 a \<and> is_digit 16 b
      then of_nat (digits_value 16 [a, b]) # from_hex rest
      else [])"
| "from_hex _ = []"

text \<open>\<open>buffer.readBigUint64BE(0)\<close>: a RangeError when fewer than eight bytes are there.\<close>

definition be_nat :: "buffer \<Rightarrow> nat" where
  "be_nat buf = foldl (\<lambda>a b. a * 256 + unat b) 0 buf"

definition readBigUint64BE :: "buffer \<Rightarrow> error + nat" where
  "readBigUint64BE buf = (if length buf < 8 then Inl RangeError else Inr (be_nat (take 8 buf)))"

text \<open>\<open>buffer.indexOf(',', start)\<close> for \<open>start \<ge> 0\<close>: \<open>-1\<close> when there is none.\<close>

definition indexOf_comma :: "buffer \<Rightarrow> nat \<Rightarrow> int" where
  "indexOf_comma buf start =
     (let rest = drop start buf; pre = takeWhile (\<lambda>b. b \<noteq> 0x2C) rest
      in if length pre = length rest then - 1 else int (start + length pre))"

text \<open>
  \<open>GetHeaderValueAscii(inputBuffer, startIndex, type)\<close> returns the text up to the next
  comma and the index after it; with type \<open>'Int'\<close> the text goes through \<open>parseInt\<close>.
  A start index is never negative here: it is \<open>3\<close> or one more than an \<open>indexOf\<close>.
\<close>

definition GetHeaderValueAscii :: "buffer \<Rightarrow> nat \<Rightarrow> string \<times> nat" where
  "GetHeaderValueAscii inputBuffer startIndex =
     (let endIndex = indexOf_comma inputBuffer startIndex
      in (toString_ascii (js_slice inputBuffer (int startIndex) endIndex), nat (endIndex + 1)))"

definition GetHeaderValueAscii_Int :: "buffer \<Rightarrow> nat \<Rightarrow> number \<times> nat" where
  "GetHeaderValueAscii_Int inputBuffer startIndex =
     (let (output, next) = GetHeaderValueAscii inputBuffer startIndex
      in (parseInt output 0, next))"

section \<open>pattern.js: the g-force and TPMS decoders\<close>

text \<open>
  A decoded value \<open>{name, dbtype, value}\<close>. The pattern information of a field is the
  JSON object of the catalog; the record has the members these two decoders read. A
  coefficient that is absent (or \<open>null\<close>) is \<open>None\<close>; a present one is a JSON number.
\<close>

record 'v DecodedValue =
  name :: string
  dbtype :: string
  val :: 'v

text \<open>
  Arithmetic on doubles. A finite double is the rational it denotes; \<open>fl\<close> rounds a
  rational to the nearest value with a 53-bit significand, ties to even, as IEEE 754
  binary64 does in its normal range (overflow and subnormals are not modelled).
\<close>

datatype double = Dbl rat | DNaN

function bit_length :: "int \<Rightarrow> nat" where
  "bit_length n = (if n \<le> 0 then 0 else Suc (bit_length (n div 2)))"
  by pat_completeness auto
termination
  by (relation "measure nat") auto

declare bit_length.simps [simp del]

definition pow2 :: "int \<Rightarrow> rat" where
  "pow2 e = (if 0 \<le> e then 2 ^ nat e else 1 / 2 ^ nat (- e))"

definition ilog2 :: "rat \<Rightarrow> int" where
  "ilog2 x =
     (let (p, q) = quotient_of \<bar>x\<bar>;
          e0 = int (bit_length p) - int (bit_length q)
      in if pow2 e0 \<le> \<bar>x\<bar> then e0 else e0 - 1)"

definition fl :: "rat \<Rightarrow> rat" where
  "fl x =
     (if x = 0 then 0
      else
        let u = pow2 (ilog2 x - 52);
            q = \<bar>x\<bar> / u;
            f = \<lfloor>q\<rfloor>;
            r = q - of_int f;
            n = (if r < 1 / 2 then f else if 1 / 2 < r then f + 1
                 else if even f then f else f + 1)
        in sgn x * of_int n * u)"

fun to_double :: "number \<Rightarrow> double" where
  "to_double (Num i) = Dbl (fl (of_int i))"
| "to_double NaN = DNaN"

fun dmul :: "double \<Rightarrow> double \<Rightarrow> double" where
  "dmul (Dbl a) (Dbl b) = Dbl (fl (a * b))"
| "dmul _ _ = DNaN"

fun dadd :: "double \<Rightarrow> double \<Rightarrow> double" where
  "dadd (Dbl a) (Dbl b) = Dbl (fl (a + b))"
| "dadd _ _ = DNaN"

fun dneg :: "double \<Rightarrow> bool" where
  "dneg (Dbl a) = (a < 0)"
| "dneg DNaN = False"

text \<open>A value used as an operand: \<open>undefined\<close> becomes \<open>NaN\<close>.\<close>

definition operand :: "double option \<Rightarrow> double" where
  "operand x = (case x of Some d \<Rightarrow> d | None \<Rightarrow> DNaN)"

record patternInfo =
  info_name :: string
  pressure_slope :: "double option"
  pressure_const :: "double option"
  temp_slope :: "double option"
  temp_const :: "double option"

text \<open>
  \<open>GetValueGForce(rawValue, patternInfo)\<close> for a string \<open>rawValue\<close> (the tokens of a
  report line are strings). The three \<open>ParseHexStringToSignedInt\<close> calls run in order
  and the first exception ends the decode.
\<close>

definition GetValueGForce ::
  "string \<Rightarrow> patternInfo \<Rightarrow> error + (number DecodedValue list) option" where
  "GetValueGForce rawValue0 patternInfo =
     (if length rawValue0 < 12 then Inr None
      else
        let rawValue = js_slice rawValue0 0 12;
            xHexString = js_slice rawValue 0 4;
            yHexString = js_slice rawValue 4 8;
            zHexString = js_slice rawValue 8 12
        in case ParseHexStringToSignedInt xHexString 32 of Inl e \<Rightarrow> Inl e | Inr xValue \<Rightarrow>
           case ParseHexStringToSignedInt yHexString 32 of Inl e \<Rightarrow> Inl e | Inr yValue \<Rightarrow>
           case ParseHexStringToSignedInt zHexString 32 of Inl e \<Rightarrow> Inl e | Inr zValue \<Rightarrow>
             let output =
                   (case xValue of None \<Rightarrow> []
                    | Some v \<Rightarrow> [\<lparr>name = info_name patternInfo @ ''_x'', dbtype = ''int'', val = v\<rparr>])
                 @ (case yValue of None \<Rightarrow> []
                    | Some v \<Rightarrow> [\<lparr>name = info_name patternInfo @ ''_y'', dbtype = ''int'', val = v\<rparr>])
                 @ (case zValue of None \<Rightarrow> []
                    | Some v \<Rightarrow> [\<lparr>name = info_name patternInfo @ ''_z'', dbtype = ''int'', val = v\<rparr>])
             in if output = [] then Inr None else Inr (Some output))"

text \<open>
  \<open>rawValue.match(/.{1,8}/g)\<close>: the successive runs of up to \<open>k\<close> characters; the dot
  does not match a line terminator, which therefore ends a run and is skipped.
\<close>

definition is_line_terminator :: "char \<Rightarrow> bool" where
  "is_line_terminator c = (c = CHR 0x0A \<or> c = CHR 0x0D)"

function match_chunks :: "nat \<Rightarrow> string \<Rightarrow> string list" where
  "match_chunks k s =
     (let s1 = dropWhile is_line_terminator s
      in if s1 = [] \<or> k = 0 then []
         else let c = take k (takeWhile (\<lambda>x. \<not> is_line_terminator x) s1)
              in c # match_chunks k (drop (length c) s1))"
  by pat_completeness auto
termination
proof (relation "measure (\<lambda>(k, s). length s)")
  show "wf (measure (\<lambda>(k, s). length s))" by simp
next
  fix k :: nat and s x :: string and xa :: string
  assume x: "x = dropWhile is_line_terminator s" and ne: "\<not> (x = [] \<or> k = 0)"
    and xa: "xa = take k (takeWhile (\<lambda>x. \<not> is_line_terminator x) x)"
  from ne obtain y ys where xs: "x = y # ys" by (cases x) auto
  have "\<not> is_line_terminator y"
    using x xs by (metis hd_dropWhile list.sel(1) list.distinct(1))
  then have "0 < length xa" using xa xs ne by (cases k) auto
  moreover have "0 < length x" using xs by simp
  ultimately have "length x - length xa < length x" by arith
  moreover have "length x \<le> length s" using x by (simp add: length_dropWhile_le)
  ultimately have "length (drop (length xa) x) < length s" by simp
  then show "((k, drop (length xa) x), (k, s)) \<in> measure (\<lambda>(k, s). length s)"
    by simp
qed

declare match_chunks.simps [simp del]

text \<open>
  One tire of \<open>GetValueTPMS\<close>: characters 5-6 give the temperature, 7-8 the pressure,
  each through its linear equation and floored at zero.
\<close>

definition floor_at_zero :: "double \<Rightarrow> double" where
  "floor_at_zero d = (if dneg d then Dbl 0 else d)"

definition tpms_tire ::
  "double \<Rightarrow> double \<Rightarrow> double \<Rightarrow> double \<Rightarrow> nat \<Rightarrow> string \<Rightarrow> double DecodedValue list" where
  "tpms_tire PRESSURE_SLOPE PRESSURE_CONST TEMP_SLOPE TEMP_CONST i chunk =
     (let tire_temp =
            floor_at_zero (dadd (dmul TEMP_SLOPE (to_double (parseInt (js_slice chunk 4 6) 16)))
                                TEMP_CONST);
          tire_pressure =
            floor_at_zero (dadd (dmul PRESSURE_SLOPE (to_double (parseInt (js_slice chunk 6 8) 16)))
                                PRESSURE_CONST)
      in [\<lparr>name = ''tire_temp_'' @ digits_of 10 (i + 1), dbtype = ''int'', val = tire_temp\<rparr>,
          \<lparr>name = ''tire_pressure_'' @ digits_of 10 (i + 1), dbtype = ''float'',
            val = tire_pressure\<rparr>])"

text \<open>
  \<open>GetValueTPMS(rawValue, patternInfo)\<close>. The guard on the pressure equation is
  \<open>pressure_slope == undefined || !pressure_const == undefined\<close>; its second operand
  compares a boolean with \<open>undefined\<close> and is always false, so only the slope is
  checked. \<open>match\<close> returns \<open>null\<close> when nothing matches, and reading its length throws.
\<close>

definition GetValueTPMS ::
  "string \<Rightarrow> patternInfo \<Rightarrow> error + (double DecodedValue list) option" where
  "GetValueTPMS rawValue patternInfo =
     (if length rawValue mod 8 \<noteq> 0 then Inr None
      else if pressure_slope patternInfo = None \<or> False then Inr None
      else if temp_slope patternInfo = None \<or> temp_const patternInfo = None then Inr None
      else
        let PRESSURE_SLOPE = operand (pressure_slope patternInfo);
            PRESSURE_CONST = operand (pressure_const patternInfo);
            TEMP_SLOPE = operand (temp_slope patternInfo);
            TEMP_CONST = operand (temp_const patternInfo);
            rawValueArray = match_chunks 8 rawValue
        in if rawValueArray = [] then Inl TypeError
           else
             let output = concat (map (\<lambda>(i, chunk).
                                 tpms_tire PRESSURE_SLOPE PRESSURE_CONST TEMP_SLOPE TEMP_CONST i chunk)
                               (enumerate 0 rawValueArray))
             in if output = [] then Inr None else Inr (Some output))"

section \<open>picture.js\<close>

text \<open>
  A device identifier is a BigInt when it was read from a keep-alive frame and a Number
  when it was parsed from the header of an ASCII report.
\<close>

datatype jsid = BigInt nat | Number number

fun id_truthy :: "jsid \<Rightarrow> bool" where
  "id_truthy (BigInt n) = (n \<noteq> 0)"
| "id_truthy (Number x) = num_truthy x"

fun id_toString :: "nat \<Rightarrow> jsid \<Rightarrow> string" where
  "id_toString r (BigInt n) = digits_of r n"
| "id_toString r (Number x) = Number_toString r x"

text \<open>A value inside a template literal: \<open>undefined\<close> prints as such.\<close>

definition id_string :: "jsid option \<Rightarrow> string" where
  "id_string d = (case d of None \<Rightarrow> ''undefined'' | Some i \<Rightarrow> id_toString 10 i)"

text \<open>The environment variables the picture class reads; an unset one is \<open>None\<close>.\<close>

record env =
  PICTURE_SAVE_TARGET :: "string option"
  PICTURE_BUCKET :: "string option"
  PICTURE_PATH :: "string option"
  PICTURE_EXT :: "string option"

record Picture =
  pictureRTC :: number
  currentPackageID :: number
  totalPackageCount :: number
  pictureContent :: buffer
  saveTarget :: string
  pic_deviceID :: "jsid option"
  dbBucket :: "string option"
  filePath :: string
  fileExt :: string
  fileName :: string
  fullFilePath :: string

text \<open>
  The two storage sinks are write-only. A call of \<open>WriteToFolder\<close> or of the bucket
  client's \<open>WriteToBucket\<close> is recorded as an event, in call order.
\<close>

datatype sink_event =
  WriteToFolder string buffer
| WriteToBucket "string option" string buffer

text \<open>
  \<open>ExtractPictureFrame\<close>: RTC, package index, total count, package size
  and the payload after the eight header bytes.
\<close>

definition ExtractPictureFrame :: "buffer \<Rightarrow> number \<times> number \<times> number \<times> number \<times> buffer" where
  "ExtractPictureFrame buf =
     (parseInt (toString_hex (js_slice buf 0 4)) 16,
      parseInt (toString_hex (js_slice buf 4 5)) 16,
      parseInt (toString_hex (js_slice buf 5 6)) 16,
      parseInt (toString_hex (js_slice buf 6 8)) 16,
      js_slice_from buf 8)"

definition Picture_constructor :: "env \<Rightarrow> buffer \<Rightarrow> jsid option \<Rightarrow> Picture" where
  "Picture_constructor e firstBuffer devID =
     (let (rtc, packageID, totalID, packageSize, pictureData) = ExtractPictureFrame firstBuffer;
          target = (if PICTURE_SAVE_TARGET e = Some ''folder'' then ''folder'' else ''database'');
          path = (case PICTURE_PATH e of
                    Some p \<Rightarrow> if p \<noteq> [] \<and> \<not> list_all is_ws p then p else ''.''
                  | None \<Rightarrow> ''.'');
          ext = (case PICTURE_EXT e of Some x \<Rightarrow> if x \<noteq> [] then x else ''jpg'' | None \<Rightarrow> ''jpg'');
          fname = id_string devID @ ''_'' @ Number_toString 10 rtc @ ''.'' @ ext
      in \<lparr>pictureRTC = rtc, currentPackageID = packageID, totalPackageCount = totalID,
          pictureContent = pictureData, saveTarget = target, pic_deviceID = devID,
          dbBucket = PICTURE_BUCKET e, filePath = path, fileExt = ext, fileName = fname,
          fullFilePath = path @ ''/'' @ fname\<rparr>)"

text \<open>
  \<open>AddPicturePackage\<close>: \<open>CheckPictureFrame\<close> accepts every frame. The content and the
  package index are updated before the first suspension point of the asynchronous
  function, so the caller sees them at once. The result is the picture and the sink
  calls made.
\<close>

definition AddPicturePackage :: "Picture \<Rightarrow> buffer \<Rightarrow> Picture \<times> sink_event list" where
  "AddPicturePackage p pictureBuffer =
     (let (rtc, packageID, totalID, packageSize, pictureData) = ExtractPictureFrame pictureBuffer;
          p' = p\<lparr>pictureContent := pictureContent p @ pictureData, currentPackageID := packageID\<rparr>
      in if num_eq (totalPackageCount p') packageID
         then (if saveTarget p' = ''folder''
               then (p', [WriteToFolder (fullFilePath p') (pictureContent p')])
               else if saveTarget p' = ''database''
               then (p', [WriteToBucket (dbBucket p')
                            (id_string (pic_deviceID p') @ ''/'' @ fileName p') (pictureContent p')])
               else (p', []))
         else (p', []))"

definition isDone :: "Picture \<Rightarrow> bool" where
  "isDone p = num_eq (currentPackageID p) (totalPackageCount p)"

section \<open>The connection: class ClientSocket\<close>

text \<open>
  The fields of the class and, as three logs, its effects on the socket and on the two
  stores. The pattern decoder \<open>ExtractValue\<close> is a parameter of the report path: a
  function from the tokens of a line and the final format to the decoded data, which
  may throw and may return \<open>undefined\<close>. The interval timers are not modelled. An
  exception that leaves \<open>RecievedData\<close> is not caught by the server and ends the
  process, so the \<open>Inl\<close> branch carries no state.
\<close>

record 'd ClientSocket =
  deviceID :: "jsid option"
  lastAlive :: nat
  seqNum :: "number option"
  reportType :: "string option"
  isReportCustom :: "bool option"
  isReportJ1708 :: "bool option"
  isReportJ1939 :: "bool option"
  reportFormatType :: "string option"
  reportJ1XXXFormat :: "string list option"
  reportCustomFormat :: "string list option"
  reportFinalFormat :: "string list option"
  picture :: "Picture option"
  socketWrites :: "buffer list"
  timeSeriesWrites :: "(string \<times> string \<times> 'd) list"
  pictureWrites :: "sink_event list"

type_synonym 'd decoder = "string list \<Rightarrow> string list \<Rightarrow> error + 'd option"

definition cmdForm :: string where "cmdForm = ''$FORM''"
definition cmdJ1708 :: string where "cmdJ1708 = ''$1708''"
definition cmdJ1939 :: string where "cmdJ1939 = ''$FMSC''"

definition reportBaseFormat :: "string list" where
  "reportBaseFormat =
     [''GPSTime'', ''RTCTime'', ''SendTime'', ''LNG'', ''LAT'', ''Heading'', ''ReportID'',
      ''Odometer'', ''HDOP'', ''InputStatus'', ''Speed'', ''OutputStatus'',
      ''AnalogInputValue'', ''DriverID'', ''1stTemp'', ''2ndTemp'', ''TextMsg'']"

definition CRLF :: string where
  "CRLF = [CHR 0x0D, CHR 0x0A]"

definition ClientSocket_constructor :: "nat \<Rightarrow> 'd ClientSocket" where
  "ClientSocket_constructor now =
     \<lparr>deviceID = None, lastAlive = now, seqNum = None, reportType = None,
      isReportCustom = None, isReportJ1708 = None, isReportJ1939 = None,
      reportFormatType = None, reportJ1XXXFormat = None, reportCustomFormat = None,
      reportFinalFormat = None, picture = None, socketWrites = [], timeSeriesWrites = [],
      pictureWrites = []\<rparr>"

text \<open>
  \<open>SendACK\<close>: the guard is the truthiness of both fields, so \<open>undefined\<close>, \<open>0\<close>,
  \<open>0n\<close> and \<open>NaN\<close> all suppress the acknowledgment.
\<close>

definition SendACK :: "'d ClientSocket \<Rightarrow> 'd ClientSocket" where
  "SendACK st =
     (case (deviceID st, seqNum st) of
        (Some dev, Some sq) \<Rightarrow>
          if id_truthy dev \<and> num_truthy sq
          then
            let seqNumHexString = padStart 4 (CHR ''0'') (Number_toString 16 sq);
                ackMsg = ''fe02'' @ padStart 16 (CHR ''0'') (id_toString 16 dev) @ seqNumHexString
            in st\<lparr>socketWrites := socketWrites st @ [from_hex ackMsg]\<rparr>
          else st
      | _ \<Rightarrow> st)"

definition SendCommand :: "'d ClientSocket \<Rightarrow> string \<Rightarrow> 'd ClientSocket" where
  "SendCommand st command =
     st\<lparr>socketWrites := socketWrites st @ [from_ascii (command @ CRLF)]\<rparr>"

definition HandleKeepAliveMsg :: "'d ClientSocket \<Rightarrow> buffer \<Rightarrow> error + 'd ClientSocket" where
  "HandleKeepAliveMsg st buf =
     (case readBigUint64BE (js_slice buf 2 10) of
        Inl e \<Rightarrow> Inl e
      | Inr d \<Rightarrow>
          Inr (st\<lparr>deviceID := Some (BigInt d),
                  seqNum := Some (parseInt (toString_hex (js_slice buf 10 12)) 16)\<rparr>))"

definition CheckReportType :: "'d ClientSocket \<Rightarrow> buffer \<Rightarrow> 'd ClientSocket" where
  "CheckReportType st buf =
     (if reportType st \<noteq> None then st
      else if js_slice buf 2 3 = [0x2C] then st\<lparr>reportType := Some ''ascii''\<rparr>
      else st\<lparr>reportType := Some ''binary''\<rparr>)"

text \<open>\<open>CheckReportMsg\<close>: not blank, and the first character a decimal digit.\<close>

definition CheckReportMsg :: "string \<Rightarrow> bool" where
  "CheckReportMsg msg =
     (if IsStringEmptyOrSpaces msg then False
      else if \<not> is_digit 10 (hd msg) then False
      else True)"

definition nth_opt :: "'a list \<Rightarrow> nat \<Rightarrow> 'a option" where
  "nth_opt xs i = (if i < length xs then Some (xs ! i) else None)"

text \<open>
  \<open>WriteReport\<close>: every line that passes \<open>CheckReportMsg\<close> is split at the commas,
  decoded, and written with the second token, followed by nine zeros, as time stamp.
  \<open>WriteData\<close> iterates over the decoded list, so \<open>undefined\<close> data throws a TypeError;
  otherwise the call is recorded with its arguments (what the database client does with
  them is outside the model).
\<close>

fun WriteReport :: "'d decoder \<Rightarrow> 'd ClientSocket \<Rightarrow> string list \<Rightarrow> error + 'd ClientSocket" where
  "WriteReport dec st [] = Inr st"
| "WriteReport dec st (line # reportLines) =
     (if \<not> CheckReportMsg line then WriteReport dec st reportLines
      else
        let frame = js_split '','' line;
            fmt = (case reportFinalFormat st of Some f \<Rightarrow> f | None \<Rightarrow> [])
        in case dec frame fmt of
             Inl e \<Rightarrow> Inl e
           | Inr data \<Rightarrow>
               let timestamp = (case nth_opt frame 1 of Some t \<Rightarrow> t | None \<Rightarrow> ''undefined'')
                                 @ replicate 9 (CHR ''0'')
               in case (deviceID st, data) of
                    (Some dev, Some d) \<Rightarrow>
                      WriteReport dec
                        (st\<lparr>timeSeriesWrites :=
                              timeSeriesWrites st @ [(id_toString 10 dev, timestamp, d)]\<rparr>)
                        reportLines
                  | _ \<Rightarrow> Inl TypeError)"

text \<open>
  \<open>HandleReportMsgAscii\<close>: the four header values (CRC, length, sequence number and
  device identifier, read one after the other from index \<open>3\<close>), the device identifier
  when it is not known yet, the sequence number; then the gate on
  \<open>reportFinalFormat\<close>, and only behind it the body.
\<close>

definition ascii_header :: "buffer \<Rightarrow> string \<times> string \<times> number \<times> number \<times> nat" where
  "ascii_header buf =
     (let (bufferCRC, i1) = GetHeaderValueAscii buf 3;
          (bufferLength, i2) = GetHeaderValueAscii buf i1;
          (bufferSeqNum, i3) = GetHeaderValueAscii_Int buf i2;
          (bufferID, headerCurrentIndex) = GetHeaderValueAscii_Int buf i3
      in (bufferCRC, bufferLength, bufferSeqNum, bufferID, headerCurrentIndex))"

definition HandleReportMsgAscii ::
  "'d decoder \<Rightarrow> 'd ClientSocket \<Rightarrow> buffer \<Rightarrow> error + 'd ClientSocket" where
  "HandleReportMsgAscii dec st buf =
     (let (bufferCRC, bufferLength, bufferSeqNum, bufferID, headerCurrentIndex) = ascii_header buf;
          st1 = (if deviceID st = None then st\<lparr>deviceID := Some (Number bufferID)\<rparr> else st);
          st2 = st1\<lparr>seqNum := Some bufferSeqNum\<rparr>
      in if reportFinalFormat st2 = None then Inr st2
         else
           let dataFrame = toString_ascii (js_slice_from buf (int headerCurrentIndex));
               dataFrameLines = js_split CRLF dataFrame
           in WriteReport dec st2 dataFrameLines)"

text \<open>\<open>HandleReportMsgBinary\<close> is an empty stub in the source.\<close>

definition HandleReportMsgBinary :: "'d ClientSocket \<Rightarrow> buffer \<Rightarrow> 'd ClientSocket" where
  "HandleReportMsgBinary st buf = st"

definition HandleReportMsg ::
  "'d decoder \<Rightarrow> 'd ClientSocket \<Rightarrow> buffer \<Rightarrow> error + 'd ClientSocket" where
  "HandleReportMsg dec st buf =
     (let st1 = CheckReportType st buf
      in if reportType st1 = Some ''ascii'' then HandleReportMsgAscii dec st1 buf
         else if reportType st1 = Some ''binary'' then Inr (HandleReportMsgBinary st1 buf)
         else Inr st1)"

text \<open>
  \<open>report.replace(/^"(.*)"$/, '$1')\<close>: a string in double quotes, with no line
  terminator between them, loses the two quotes; any other string is unchanged.
\<close>

definition strip_outer_quotes :: "string \<Rightarrow> string" where
  "strip_outer_quotes s =
     (if 2 \<le> length s \<and> hd s = CHR 0x22 \<and> last s = CHR 0x22
         \<and> list_all (\<lambda>c. \<not> is_line_terminator c) (butlast (tl s))
      then butlast (tl s) else s)"

text \<open>
  \<open>ReportFormatSplit\<close>: all single and double quotes are removed, the rest is split
  at \<open>%\<close>, and \<open>shift()\<close> drops the first element of the split, whatever it is.
\<close>

definition remove_quotes :: "string \<Rightarrow> string" where
  "remove_quotes s = filter (\<lambda>c. c \<noteq> CHR 0x27 \<and> c \<noteq> CHR 0x22) s"

definition ReportFormatSplit :: "string \<Rightarrow> string list" where
  "ReportFormatSplit reportFormat = tl (js_split ''%'' (remove_quotes reportFormat))"

text \<open>
  \<open>SaveReportFormat(input)\<close> with \<open>cmd = input[0]\<close> and \<open>arg = input[1]\<close>. The format
  is argument 3 of \<open>$FORM\<close>, argument 0 of \<open>$1708\<close> and argument 1 of \<open>$FMSC\<close>; calling
  \<open>replace\<close> on a missing argument throws a TypeError. A flag that is already set is
  left alone.
\<close>

definition SaveReportFormat :: "'d ClientSocket \<Rightarrow> string \<Rightarrow> string \<Rightarrow> error + 'd ClientSocket" where
  "SaveReportFormat st cmd arg =
     (let value' = js_split '','' arg
      in if cmd = cmdForm then
           (if isReportCustom st = None then
              (case nth_opt value' 3 of
                 None \<Rightarrow> Inl TypeError
               | Some report \<Rightarrow>
                   if strip_outer_quotes report \<noteq> []
                   then Inr (st\<lparr>reportCustomFormat := Some (ReportFormatSplit report),
                                isReportCustom := Some True\<rparr>)
                   else Inr (st\<lparr>isReportCustom := Some False\<rparr>))
            else Inr st)
         else if cmd = cmdJ1708 then
           (if isReportJ1708 st = None then
              (case nth_opt value' 0 of
                 None \<Rightarrow> Inl TypeError
               | Some report \<Rightarrow>
                   if strip_outer_quotes report \<noteq> []
                   then Inr (st\<lparr>reportJ1XXXFormat := Some (ReportFormatSplit report),
                                isReportJ1708 := Some True\<rparr>)
                   else Inr (st\<lparr>isReportJ1708 := Some False\<rparr>))
            else Inr st)
         else if cmd = cmdJ1939 then
           (if isReportJ1939 st = None then
              (case nth_opt value' 1 of
                 None \<Rightarrow> Inl TypeError
               | Some report \<Rightarrow>
                   if strip_outer_quotes report \<noteq> []
                   then Inr (st\<lparr>reportJ1XXXFormat := Some (ReportFormatSplit report),
                                isReportJ1939 := Some True\<rparr>)
                   else Inr (st\<lparr>isReportJ1939 := Some False\<rparr>))
            else Inr st)
         else Inr st)"

text \<open>
  \<open>UpdateReportFormatStatus\<close> returns whether all three flags are known, and then sets
  the type and the final format. \<open>concat\<close> of a format that was never stored cannot
  arise: a flag becomes true only together with its format; the model appends nothing
  in that case.
\<close>

definition format_or_empty :: "string list option \<Rightarrow> string list" where
  "format_or_empty f = (case f of Some xs \<Rightarrow> xs | None \<Rightarrow> [])"

definition UpdateReportFormatStatus :: "'d ClientSocket \<Rightarrow> bool \<times> 'd ClientSocket" where
  "UpdateReportFormatStatus st =
     (case (isReportCustom st, isReportJ1708 st, isReportJ1939 st) of
        (Some custom, Some j1708, Some j1939) \<Rightarrow>
          if custom \<and> \<not> j1708 \<and> \<not> j1939 then
            (True, st\<lparr>reportFormatType := Some ''custom'',
                      reportFinalFormat :=
                        Some (reportBaseFormat @ format_or_empty (reportCustomFormat st))\<rparr>)
          else if \<not> custom \<and> j1708 \<and> \<not> j1939 then
            (True, st\<lparr>reportFormatType := Some ''j1708'',
                      reportFinalFormat :=
                        Some (reportBaseFormat @ format_or_empty (reportJ1XXXFormat st))\<rparr>)
          else if \<not> custom \<and> \<not> j1708 \<and> j1939 then
            (True, st\<lparr>reportFormatType := Some ''j1939'',
                      reportFinalFormat :=
                        Some (reportBaseFormat @ format_or_empty (reportJ1XXXFormat st))\<rparr>)
          else
            (True, st\<lparr>reportFormatType := Some ''base'',
                      reportFinalFormat := Some reportBaseFormat\<rparr>)
      | _ \<Rightarrow> (False, st))"

text \<open>\<open>GetReportFormat\<close>, run by a timer: one query for every flag still unknown.\<close>

definition GetReportFormat :: "'d ClientSocket \<Rightarrow> 'd ClientSocket" where
  "GetReportFormat st =
     (let (known, st1) = UpdateReportFormatStatus st
      in if known then st1
         else
           let st2 = (if isReportCustom st1 = None
                      then SendCommand st1 (''AT'' @ cmdForm @ ''=?'') else st1);
               st3 = (if isReportJ1708 st2 = None
                      then SendCommand st2 (''AT'' @ cmdJ1708 @ ''=?'') else st2)
           in if isReportJ1939 st3 = None
              then SendCommand st3 (''AT'' @ cmdJ1939 @ ''=?'') else st3)"

text \<open>
  \<open>HandleOtherMsg\<close>: with an ASCII connection the text is split into lines; a line with
  an \<open>=\<close> whose left side is one of the three format commands is saved and the status
  updated.
\<close>

fun HandleOtherLines :: "'d ClientSocket \<Rightarrow> string list \<Rightarrow> error + 'd ClientSocket" where
  "HandleOtherLines st [] = Inr st"
| "HandleOtherLines st (line # dataSplit) =
     (if IsStringEmptyOrSpaces line then HandleOtherLines st dataSplit
      else
        case js_split ''='' line of
          cmd # arg # _ \<Rightarrow>
            if cmd \<in> set [cmdForm, cmdJ1708, cmdJ1939]
            then (case SaveReportFormat st cmd arg of
                    Inl e \<Rightarrow> Inl e
                  | Inr st1 \<Rightarrow> HandleOtherLines (snd (UpdateReportFormatStatus st1)) dataSplit)
            else HandleOtherLines st dataSplit
        | _ \<Rightarrow> HandleOtherLines st dataSplit)"

definition HandleOtherMsg :: "'d ClientSocket \<Rightarrow> buffer \<Rightarrow> error + 'd ClientSocket" where
  "HandleOtherMsg st buf =
     (if reportType st = Some ''ascii''
      then HandleOtherLines st (js_split CRLF (toString_ascii buf))
      else Inr st)"

text \<open>
  \<open>HandlePictureMsg\<close>: reading the device identifier of the frame throws on a frame
  shorter than sixteen bytes, before the sequence number is stored. With no picture in
  progress the frame only constructs one; otherwise the package is added and a finished
  picture is dropped.
\<close>

definition HandlePictureMsg :: "env \<Rightarrow> 'd ClientSocket \<Rightarrow> buffer \<Rightarrow> error + 'd ClientSocket" where
  "HandlePictureMsg e st buf =
     (let bufferSeqNum = parseInt (toString_hex (js_slice buf 6 8)) 16
      in case readBigUint64BE (js_slice buf 8 16) of
           Inl err \<Rightarrow> Inl err
         | Inr bufferDeviceID \<Rightarrow>
             let st1 = st\<lparr>seqNum := Some bufferSeqNum\<rparr>;
                 pictureDataFrame = js_slice_from buf 16
             in case picture st1 of
                  None \<Rightarrow>
                    Inr (st1\<lparr>picture :=
                               Some (Picture_constructor e pictureDataFrame (deviceID st1))\<rparr>)
                | Some p \<Rightarrow>
                    let (p', events) = AddPicturePackage p pictureDataFrame;
                        st2 = st1\<lparr>pictureWrites := pictureWrites st1 @ events\<rparr>
                    in if isDone p' then Inr (st2\<lparr>picture := None\<rparr>)
                       else Inr (st2\<lparr>picture := Some p'\<rparr>))"

text \<open>
  \<open>RecievedData\<close>: the frame is classified by its first two bytes, then the time of the
  last frame is stored and the acknowledgment sent.
\<close>

definition RecievedData ::
  "'d decoder \<Rightarrow> env \<Rightarrow> nat \<Rightarrow> 'd ClientSocket \<Rightarrow> buffer \<Rightarrow> error + 'd ClientSocket" where
  "RecievedData dec e now st buf =
     (let prefix = js_slice buf 0 2;
          handled =
            (if prefix = [0xFE, 0x02] \<and> length buf = 12 then HandleKeepAliveMsg st buf
             else if prefix = [0x40, 0x50] then HandleReportMsg dec st buf
             else if prefix = [0x40, 0x52] then HandlePictureMsg e st buf
             else HandleOtherMsg st buf)
      in case handled of
           Inl err \<Rightarrow> Inl err
         | Inr st1 \<Rightarrow> Inr (SendACK (st1\<lparr>lastAlive := now\<rparr>)))"

text \<open>Frames arriving one after the other, each with its arrival time.\<close>

fun RecievedAll ::
  "'d decoder \<Rightarrow> env \<Rightarrow> 'd ClientSocket \<Rightarrow> (nat \<times> buffer) list \<Rightarrow> error + 'd ClientSocket" where
  "RecievedAll dec e st [] = Inr st"
| "RecievedAll dec e st ((now, buf) # frames) =
     (case RecievedData dec e now st buf of
        Inl err \<Rightarrow> Inl err
      | Inr st1 \<Rightarrow> RecievedAll dec e st1 frames)"

text \<open>Picture packages added one after the other to a picture under construction.\<close>

definition AddPicturePackages :: "Picture \<Rightarrow> buffer list \<Rightarrow> Picture" where
  "AddPicturePackages p bufs = foldl (\<lambda>q b. fst (AddPicturePackage q b)) p bufs"

definition package_index :: "buffer \<Rightarrow> number" where
  "package_index buf = fst (snd (ExtractPictureFrame buf))"

definition package_payload :: "buffer \<Rightarrow> buffer" where
  "package_payload buf = snd (snd (snd (snd (ExtractPictureFrame buf))))"

definition package_total :: "buffer \<Rightarrow> number" where
  "package_total buf = fst (snd (snd (ExtractPictureFrame buf)))"

text \<open>The sequence number and the device identifier in the header of an ASCII report.\<close>

definition report_seq_and_id :: "buffer \<Rightarrow> number \<times> number" where
  "report_seq_and_id buf =
     (let (bufferCRC, bufferLength, bufferSeqNum, bufferID, headerCurrentIndex) = ascii_header buf
      in (bufferSeqNum, bufferID))"

text \<open>A string in double quotes, and the six orders of three responses.\<close>

definition quoted :: "string \<Rightarrow> string" where
  "quoted f = CHR 0x22 # f @ [CHR 0x22]"

definition orders3 :: "'a \<Rightarrow> 'a \<Rightarrow> 'a \<Rightarrow> 'a list list" where
  "orders3 a b c = [[a, b, c], [a, c, b], [b, a, c], [b, c, a], [c, a, b], [c, b, a]]"

section \<open>Fixed-width digit strings\<close>

text \<open>
  The \<open>k\<close> low digits of \<open>n\<close> in radix \<open>r\<close>, most significant first: what \<open>padStart\<close>
  makes of \<open>toString\<close> when the number fits. It is used in the proofs only.
\<close>

fun fixed_digits :: "nat \<Rightarrow> nat \<Rightarrow> nat \<Rightarrow> string" where
  "fixed_digits r 0 n = []"
| "fixed_digits r (Suc k) n = fixed_digits r k (n div r) @ [digit_char (n mod r)]"

section \<open>Reference encodings and sample inputs\<close>

text \<open>The \<open>k\<close> big-endian bytes of a number, the inverse of \<open>be_nat\<close>.\<close>

fun be_bytes :: "nat \<Rightarrow> nat \<Rightarrow> buffer" where
  "be_bytes 0 n = []"
| "be_bytes (Suc k) n = be_bytes k (n div 256) @ [of_nat (n mod 256)]"

text \<open>A decoder and an environment for the sample runs.\<close>

definition sample_decoder :: "string list decoder" where
  "sample_decoder frame fmt = Inr (Some frame)"

definition sample_env :: env where
  "sample_env = \<lparr>PICTURE_SAVE_TARGET = None, PICTURE_BUCKET = Some ''pictures'',
                  PICTURE_PATH = None, PICTURE_EXT = None\<rparr>"

definition fresh :: "string list ClientSocket" where
  "fresh = ClientSocket_constructor 0"

text \<open>Keep-alive frames of device \<open>258\<close> with sequence numbers \<open>0\<close> and \<open>7\<close>.\<close>

definition keepalive_seq0 :: buffer where
  "keepalive_seq0 = [0xFE, 0x02, 0, 0, 0, 0, 0, 0, 1, 2, 0, 0]"

definition keepalive_seq7 :: buffer where
  "keepalive_seq7 = [0xFE, 0x02, 0, 0, 0, 0, 0, 0, 1, 2, 0, 7]"

text \<open>The TPMS field of the repository's tests, and the same without \<open>pressure_const\<close>.\<close>

definition tpms_info :: patternInfo where
  "tpms_info = \<lparr>info_name = ''tpms'', pressure_slope = Some (Dbl (fl (3625 / 10000))),
                 pressure_const = Some (Dbl 0), temp_slope = Some (Dbl 3),
                 temp_const = Some (Dbl (- 424))\<rparr>"

definition tpms_info_no_const :: patternInfo where
  "tpms_info_no_const = tpms_info\<lparr>pressure_const := None\<rparr>"

text \<open>
  Three picture packages of one transfer of three (payloads \<open>AA BB\<close>, \<open>CC\<close>, \<open>DD\<close>), and a
  picture frame whose only package is package one of one.
\<close>

definition package1of3 :: buffer where
  "package1of3 = [0, 0, 0, 1, 1, 3, 0, 2, 0xAA, 0xBB]"

definition package2of3 :: buffer where
  "package2of3 = [0, 0, 0, 1, 2, 3, 0, 1, 0xCC]"

definition package3of3 :: buffer where
  "package3of3 = [0, 0, 0, 1, 3, 3, 0, 1, 0xDD]"

definition single_picture_frame :: buffer where
  "single_picture_frame =
     [0x40, 0x52, 0, 0, 0, 0x0B, 0, 9, 0, 0, 0, 0, 0, 0, 1, 2,
      0, 0, 0, 1, 1, 1, 0, 1, 0xEE]"

text \<open>
  Two ASCII reports with the same header (sequence number \<open>34\<close>, device \<open>5678\<close>) and
  different bodies.
\<close>

definition report_a :: buffer where
  "report_a = from_ascii ''@P,ABCD,12,34,5678,1712808280,1712867697,3''"

definition report_b :: buffer where
  "report_b = from_ascii ''@P,ABCD,12,34,5678,1712808281,1712867698,4''"

text \<open>
  The arguments of the three format responses, \<open>$FORM=0,@P,0,"..."\<close>, \<open>$1708="..."\<close>
  and \<open>$FMSC=1,"..."\<close>, for a given format string.
\<close>

definition form_args :: "string \<Rightarrow> string" where
  "form_args fmt = ''0,@P,0,'' @ quoted fmt"

definition j1708_args :: "string \<Rightarrow> string" where
  "j1708_args fmt = quoted fmt"

definition fmsc_args :: "string \<Rightarrow> string" where
  "fmsc_args fmt = ''1,'' @ quoted fmt"

definition gforce_info :: patternInfo where
  "gforce_info = \<lparr>info_name = ''gforce'', pressure_slope = None, pressure_const = None,
                   temp_slope = None, temp_const = None\<rparr>"

section \<open>Digits: rendering and parsing\<close>

text \<open>
  \<open>parseInt\<close> reads back what \<open>toString\<close> writes, in any radix up to sixteen, and a
  number that fits in \<open>k\<close> digits, padded to \<open>k\<close>, is the fixed-width string of its
  digits. Slices of that string are digit strings of quotients and remainders, which
  gives the bit slices of \<open>GetIntSliceFromBinary\<close>.
\<close>

lemma digit_char_val: "d < 36 \<Longrightarrow> digit_val (digit_char d) = Some d"
  by (auto simp: digit_val_def digit_char_def Let_def)

lemma is_digit_digit_char: "d < r \<Longrightarrow> r \<le> 36 \<Longrightarrow> is_digit r (digit_char d)"
  by (simp add: is_digit_def digit_char_val)

lemma digits_value_snoc:
  "digits_value r (xs @ [c]) = digits_value r xs * r + (case digit_val c of Some d \<Rightarrow> d | None \<Rightarrow> 0)"
  by (simp add: digits_value_def)

lemma digits_value_Nil: "digits_value r [] = 0"
  by (simp add: digits_value_def)

lemma digits_of_value: "2 \<le> r \<Longrightarrow> r \<le> 36 \<Longrightarrow> digits_value r (digits_of r n) = n"
proof (induction r n rule: digits_of.induct)
  case (1 r n)
  show ?case
  proof (cases "n < r")
    case True
    with 1 show ?thesis
      by (subst digits_of.simps) (simp add: digits_value_def digit_char_val)
  next
    case False
    with 1 have "digits_value r (digits_of r (n div r)) = n div r" by simp
    moreover have "n mod r < r" using 1(2) by simp
    then have "n mod r < 36" using 1(3) by linarith
    ultimately show ?thesis using False 1(2)
      by (subst digits_of.simps) (simp add: digits_value_snoc digit_char_val)
  qed
qed

lemma digits_of_all_digits: "2 \<le> r \<Longrightarrow> r \<le> 36 \<Longrightarrow> list_all (is_digit r) (digits_of r n)"
proof (induction r n rule: digits_of.induct)
  case (1 r n)
  show ?case
  proof (cases "n < r")
    case True
    with 1 show ?thesis
      by (subst digits_of.simps) (simp add: is_digit_digit_char)
  next
    case False
    with 1 have "list_all (is_digit r) (digits_of r (n div r))" by simp
    moreover have "n mod r < r" using 1(2) by simp
    ultimately show ?thesis using False 1(2,3)
      by (subst digits_of.simps) (simp add: is_digit_digit_char)
  qed
qed

lemma digits_of_nonempty: "2 \<le> r \<Longrightarrow> digits_of r n \<noteq> []"
  by (subst digits_of.simps) simp

lemma length_fixed_digits: "length (fixed_digits r k n) = k"
  by (induction k arbitrary: n) auto

lemma fixed_digits_zero: "fixed_digits r k 0 = replicate k (CHR ''0'')"
proof (induction k)
  case 0
  show ?case by simp
next
  case (Suc k)
  have "digit_char 0 = CHR ''0''" by (simp add: digit_char_def char_of_eq_iff)
  with Suc show ?case by (simp add: replicate_append_same)
qed

lemma padStart_snoc: "length xs < k \<Longrightarrow> padStart k c (xs @ [d]) = padStart (k - 1) c xs @ [d]"
  by (simp add: padStart_def)

lemma digits_of_fixed:
  "2 \<le> r \<Longrightarrow> n < r ^ k \<Longrightarrow> 0 < k \<Longrightarrow>
     length (digits_of r n) \<le> k \<and> padStart k (CHR ''0'') (digits_of r n) = fixed_digits r k n"
proof (induction k arbitrary: n)
  case 0
  then show ?case by simp
next
  case (Suc k)
  show ?case
  proof (cases "n < r")
    case True
    then have "digits_of r n = [digit_char n]" using Suc.prems(1)
      by (subst digits_of.simps) simp
    with True show ?thesis
      by (simp add: padStart_def fixed_digits_zero)
  next
    case False
    then have k: "0 < k" using Suc.prems(2) by (cases k) auto
    have "n div r < r ^ k" using Suc.prems(1,2)
      by (simp add: less_mult_imp_div_less mult.commute)
    from Suc.IH[OF Suc.prems(1) this k]
    have IH: "length (digits_of r (n div r)) \<le> k"
      "padStart k (CHR ''0'') (digits_of r (n div r)) = fixed_digits r k (n div r)" by auto
    have unf: "digits_of r n = digits_of r (n div r) @ [digit_char (n mod r)]"
      using False Suc.prems(1) by (subst digits_of.simps) simp
    show ?thesis using IH by (simp add: unf padStart_def Suc_diff_le)
  qed
qed

lemma fixed_digits_value:
  "2 \<le> r \<Longrightarrow> r \<le> 36 \<Longrightarrow> digits_value r (fixed_digits r k n) = n mod r ^ k"
proof (induction k arbitrary: n)
  case 0
  then show ?case by (simp add: digits_value_Nil)
next
  case (Suc k)
  have "n mod r < r" using Suc.prems(1) by simp
  then have "n mod r < 36" using Suc.prems(2) by linarith
  then show ?case using Suc
    by (simp add: digits_value_snoc digit_char_val mod_mult2_eq mult.commute)
qed

lemma fixed_digits_all_digits:
  "2 \<le> r \<Longrightarrow> r \<le> 36 \<Longrightarrow> list_all (is_digit r) (fixed_digits r k n)"
  by (induction k arbitrary: n) (auto simp: is_digit_digit_char)

lemma drop_fixed_digits:
  "j \<le> k \<Longrightarrow> drop j (fixed_digits r k n) = fixed_digits r (k - j) n"
proof (induction k arbitrary: n)
  case 0
  then show ?case by simp
next
  case (Suc k)
  show ?case
  proof (cases "j \<le> k")
    case True
    with Suc.IH[of "n div r"] show ?thesis
      by (simp add: length_fixed_digits Suc_diff_le)
  next
    case False
    with Suc.prems have "j = Suc k" by simp
    then show ?thesis by (simp add: length_fixed_digits)
  qed
qed

lemma take_fixed_digits:
  "j \<le> k \<Longrightarrow> take j (fixed_digits r k n) = fixed_digits r j (n div r ^ (k - j))"
proof (induction k arbitrary: n)
  case 0
  then show ?case by simp
next
  case (Suc k)
  show ?case
  proof (cases "j \<le> k")
    case True
    with Suc.IH[of "n div r"] show ?thesis
      by (simp add: length_fixed_digits Suc_diff_le div_mult2_eq)
  next
    case False
    with Suc.prems have "j = Suc k" by simp
    then show ?thesis by (simp add: length_fixed_digits)
  qed
qed

lemma is_digit_not_ws: "is_digit r c \<Longrightarrow> r \<le> 36 \<Longrightarrow> \<not> is_ws c"
  by (auto simp: is_digit_def digit_val_def is_ws_def Let_def split: if_splits)

lemma is_digit_not_sign: "is_digit r c \<Longrightarrow> c \<noteq> CHR ''-'' \<and> c \<noteq> CHR ''+'' \<and> c \<noteq> CHR ''~''"
  by (auto simp: is_digit_def digit_val_def Let_def)

lemma is_digit_not_x: "is_digit r c \<Longrightarrow> r \<le> 16 \<Longrightarrow> c \<noteq> CHR ''x'' \<and> c \<noteq> CHR ''X''"
  by (auto simp: is_digit_def digit_val_def Let_def)

lemma takeWhile_all: "list_all P xs \<Longrightarrow> takeWhile P xs = xs"
  by (induction xs) auto

lemma parseInt_digits:
  assumes "s \<noteq> []" and "list_all (is_digit r) s" and "2 \<le> r" and "r \<le> 16"
    and "radix = r \<or> (radix = 0 \<and> r = 10)"
  shows "parseInt s radix = Num (int (digits_value r s))"
proof -
  obtain c cs where s: "s = c # cs" using assms(1) by (cases s) auto
  have c: "is_digit r c" using assms(2) s by simp
  have ws: "dropWhile is_ws s = s"
    using is_digit_not_ws[OF c] assms(4) s by simp
  have sg: "take (Suc 0) s \<noteq> ''-''" "take (Suc 0) s \<noteq> ''+''"
    using is_digit_not_sign[OF c] s by auto
  have px: "take 2 s \<noteq> ''0x''" "take 2 s \<noteq> ''0X''"
  proof -
    show "take 2 s \<noteq> ''0x''"
    proof
      assume "take 2 s = ''0x''"
      then obtain ds where "cs = CHR ''x'' # ds" using s by (cases cs) auto
      then have "is_digit r (CHR ''x'')" using assms(2) s by simp
      then show False using is_digit_not_x assms(4) by blast
    qed
    show "take 2 s \<noteq> ''0X''"
    proof
      assume "take 2 s = ''0X''"
      then obtain ds where "cs = CHR ''X'' # ds" using s by (cases cs) auto
      then have "is_digit r (CHR ''X'')" using assms(2) s by simp
      then show False using is_digit_not_x assms(4) by blast
    qed
  qed
  have tw: "takeWhile (is_digit r) s = s" using assms(2) by (rule takeWhile_all)
  from assms(5) show ?thesis
  proof
    assume "radix = r"
    then show ?thesis using assms(1,3,4)
      by (simp add: parseInt_def Let_def ws sg px tw)
  next
    assume "radix = 0 \<and> r = 10"
    then show ?thesis using assms(1) tw
      by (simp add: parseInt_def Let_def ws sg px del: takeWhile_eq_all_conv)
  qed
qed

lemma split_acc_no_sep:
  "c \<notin> set xs \<Longrightarrow> split_acc [c] acc xs = [rev acc @ xs]"
  by (induction xs arbitrary: acc) auto

lemma split_acc_first:
  "c \<notin> set xs \<Longrightarrow> split_acc [c] acc (xs @ c # ys) = (rev acc @ xs) # split_acc [c] [] ys"
  by (induction xs arbitrary: acc) auto

lemma js_split_two:
  "c \<notin> set xs \<Longrightarrow> c \<notin> set ys \<Longrightarrow> js_split [c] (xs @ c # ys) = [xs, ys]"
  by (simp add: js_split_def split_acc_first split_acc_no_sep)

lemma binaryString_fixed:
  assumes "0 \<le> v" and "v < 2 ^ n" and "0 < n"
  shows "length (Number_toString 2 (Num v)) \<le> n"
    and "padStart n (CHR ''0'') (Number_toString 2 (Num v)) = fixed_digits 2 n (nat v)"
proof -
  have "nat v < 2 ^ n" using assms(1,2) by (simp add: nat_less_iff)
  from digits_of_fixed[OF _ this assms(3)] assms(1)
  show "length (Number_toString 2 (Num v)) \<le> n"
    and "padStart n (CHR ''0'') (Number_toString 2 (Num v)) = fixed_digits 2 n (nat v)"
    by simp_all
qed

lemma parse_fixed_bits:
  assumes "0 < k"
  shows "ParseBinaryToUnsigned (fixed_digits 2 k m) = Num (int (m mod 2 ^ k))"
proof -
  have ne: "fixed_digits 2 k m \<noteq> []"
    using assms length_fixed_digits[of 2 k m] by auto
  have "parseInt (fixed_digits 2 k m) 2 = Num (int (digits_value 2 (fixed_digits 2 k m)))"
    by (rule parseInt_digits[OF ne]) (simp_all add: fixed_digits_all_digits)
  then show ?thesis
    by (simp add: ParseBinaryToUnsigned_def fixed_digits_value)
qed

lemma parse_decimal: "parseInt (digits_of 10 a) 0 = Num (int a)"
proof -
  have "parseInt (digits_of 10 a) 0 = Num (int (digits_value 10 (digits_of 10 a)))"
    by (rule parseInt_digits) (simp_all add: digits_of_nonempty digits_of_all_digits)
  then show ?thesis by (simp add: digits_of_value)
qed

lemma tilde_not_decimal: "CHR ''~'' \<notin> set (digits_of 10 a)"
proof
  assume "CHR ''~'' \<in> set (digits_of 10 a)"
  moreover have "list_all (is_digit 10) (digits_of 10 a)"
    by (simp add: digits_of_all_digits)
  ultimately have "is_digit 10 (CHR ''~'')" by (simp add: list_all_iff)
  then show False using is_digit_not_sign by blast
qed

lemma nth_as_take_drop: "i < length xs \<Longrightarrow> [xs ! i] = take 1 (drop i xs)"
  by (simp add: take_Suc_conv_app_nth)

lemma slice_of_fixed_bits:
  assumes "a \<le> b" and "b < n"
  shows "take (b - a + 1) (drop (n - b - 1) (fixed_digits 2 n m)) = fixed_digits 2 (b - a + 1) (m div 2 ^ a)"
proof -
  have "drop (n - b - 1) (fixed_digits 2 n m) = fixed_digits 2 (b + 1) m"
    using assms(2) by (simp add: drop_fixed_digits)
  moreover have "take (b - a + 1) (fixed_digits 2 (b + 1) m) = fixed_digits 2 (b - a + 1) (m div 2 ^ a)"
    using assms(1) take_fixed_digits[of "b - a + 1" "b + 1" 2 m] by simp
  ultimately show ?thesis by simp
qed

lemma int_bits_of_nat:
  "0 \<le> v \<Longrightarrow> int ((nat v div 2 ^ a) mod 2 ^ k) = (v div 2 ^ a) mod 2 ^ k"
  by (simp add: zmod_int zdiv_int)

lemma GetIntSliceFromBinary_range_unfold:
  assumes "length (Number_toString 2 x) \<le> n" and "CHR ''~'' \<in> set s"
    and "js_split ''~'' s = [p, q]" and "parseInt p 0 = Num a" and "parseInt q 0 = Num b"
    and "a < b" and "0 \<le> a" and "b < int n"
  shows "GetIntSliceFromBinary x n s False
         = Inr (Some (ParseBinaryToUnsigned
                  (js_slice (padStart n (CHR ''0'') (Number_toString 2 x))
                            (int n - b - 1) (int n - a))))"
  using assms by (simp add: GetIntSliceFromBinary_def Let_def)

lemma GetIntSliceFromBinary_bit_unfold:
  assumes "length (Number_toString 2 x) \<le> n" and "CHR ''~'' \<notin> set s"
    and "parseInt s 0 = Num p" and "p < int n"
    and "js_char_at (padStart n (CHR ''0'') (Number_toString 2 x)) (int n - p - 1) = Some out"
  shows "GetIntSliceFromBinary x n s False = Inr (Some (ParseBinaryToUnsigned out))"
  using assms by (simp add: GetIntSliceFromBinary_def Let_def)

text \<open>
  Claim C3. For every integer \<open>v\<close> with \<open>0 \<le> v < 2 ^ n\<close> and every range \<open>a~b\<close> with
  \<open>a < b < n\<close>, written in decimal, \<open>GetIntSliceFromBinary(v, n, "a~b")\<close> is the unsigned
  value of bits \<open>b\<close> down to \<open>a\<close> of \<open>v\<close>, that is \<open>(v div 2 ^ a) mod 2 ^ (b - a + 1)\<close>, and
  for every single-bit slice \<open>"a"\<close> with \<open>a < n\<close> it is \<open>(v div 2 ^ a) mod 2\<close>.
\<close>

theorem GetIntSliceFromBinary_bits:
  assumes "0 \<le> v" and "v < 2 ^ n"
  shows "(a < b \<and> b < n \<longrightarrow>
           GetIntSliceFromBinary (Num v) n (digits_of 10 a @ ''~'' @ digits_of 10 b) False
             = Inr (Some (Num ((v div 2 ^ a) mod 2 ^ (b - a + 1)))))
       \<and> (a < n \<longrightarrow>
           GetIntSliceFromBinary (Num v) n (digits_of 10 a) False
             = Inr (Some (Num ((v div 2 ^ a) mod 2))))"
proof (intro conjI impI)
  assume ab: "a < b \<and> b < n"
  then have n: "0 < n" by simp
  note bs = binaryString_fixed[OF assms n]
  have inc: "CHR ''~'' \<in> set (digits_of 10 a @ ''~'' @ digits_of 10 b)" by simp
  have parts: "js_split ''~'' (digits_of 10 a @ ''~'' @ digits_of 10 b) = [digits_of 10 a, digits_of 10 b]"
    using js_split_two[OF tilde_not_decimal tilde_not_decimal, of a b] by simp
  have sl: "js_slice (fixed_digits 2 n (nat v)) (int n - int b - 1) (int n - int a)
            = fixed_digits 2 (b - a + 1) (nat v div 2 ^ a)"
  proof -
    have i1: "js_index n (int n - int b - 1) = n - b - 1"
      using ab by (simp add: js_index_def nat_diff_distrib')
    have i2: "js_index n (int n - int a) = n - a"
      using ab by (simp add: js_index_def nat_diff_distrib')
    have d: "(n - a) - (n - b - 1) = b - a + 1" using ab by arith
    show ?thesis
      unfolding js_slice_def Let_def length_fixed_digits i1 i2 d
      using ab by (intro slice_of_fixed_bits) simp_all
  qed
  have "GetIntSliceFromBinary (Num v) n (digits_of 10 a @ ''~'' @ digits_of 10 b) False
          = Inr (Some (ParseBinaryToUnsigned
                  (js_slice (padStart n (CHR ''0'') (Number_toString 2 (Num v)))
                            (int n - int b - 1) (int n - int a))))"
    using ab by (intro GetIntSliceFromBinary_range_unfold[OF bs(1) inc parts parse_decimal parse_decimal]) simp_all
  also have "\<dots> = Inr (Some (ParseBinaryToUnsigned (fixed_digits 2 (b - a + 1) (nat v div 2 ^ a))))"
    by (simp only: bs(2) sl)
  also have "\<dots> = Inr (Some (Num ((v div 2 ^ a) mod 2 ^ (b - a + 1))))"
    using assms(1) by (simp only: parse_fixed_bits[of "b - a + 1"] int_bits_of_nat)
  finally show "GetIntSliceFromBinary (Num v) n (digits_of 10 a @ ''~'' @ digits_of 10 b) False
             = Inr (Some (Num ((v div 2 ^ a) mod 2 ^ (b - a + 1))))" .
next
  assume an: "a < n"
  then have n: "0 < n" by simp
  note bs = binaryString_fixed[OF assms n]
  have ch: "js_char_at (fixed_digits 2 n (nat v)) (int n - int a - 1)
            = Some (fixed_digits 2 1 (nat v div 2 ^ a))"
  proof -
    have idx: "nat (int n - int a - 1) = n - a - 1" using an by (simp add: nat_diff_distrib')
    have "[fixed_digits 2 n (nat v) ! (n - a - 1)] = take 1 (drop (n - a - 1) (fixed_digits 2 n (nat v)))"
      using an by (intro nth_as_take_drop) (simp add: length_fixed_digits)
    also have "\<dots> = fixed_digits 2 1 (nat v div 2 ^ a)"
      using slice_of_fixed_bits[of a a n "nat v"] an by simp
    finally show ?thesis using an
      by (simp add: js_char_at_def idx length_fixed_digits del: fixed_digits.simps)
  qed
  have ch': "js_char_at (padStart n (CHR ''0'') (Number_toString 2 (Num v))) (int n - int a - 1)
            = Some (fixed_digits 2 1 (nat v div 2 ^ a))"
    by (simp only: bs(2) ch)
  have "GetIntSliceFromBinary (Num v) n (digits_of 10 a) False
          = Inr (Some (ParseBinaryToUnsigned (fixed_digits 2 1 (nat v div 2 ^ a))))"
    using an by (intro GetIntSliceFromBinary_bit_unfold[OF bs(1) tilde_not_decimal parse_decimal _ ch']) simp
  also have "\<dots> = Inr (Some (Num ((v div 2 ^ a) mod 2)))"
    using assms(1) int_bits_of_nat[of v a 1] by (simp only: parse_fixed_bits[of 1]) simp
  finally show "GetIntSliceFromBinary (Num v) n (digits_of 10 a) False
             = Inr (Some (Num ((v div 2 ^ a) mod 2)))" .
qed

lemma decimal_2_5: "digits_of 10 2 = ''2''" "digits_of 10 5 = ''5''"
  by (simp_all add: digits_of.simps digit_char_def char_of_eq_iff)

theorem GetIntSliceFromBinary_bits_witness:
  "(0::int) \<le> 181 \<and> (181::int) < 2 ^ 8 \<and> (2::nat) < 5 \<and> (5::nat) < 8
   \<and> GetIntSliceFromBinary (Num 181) 8 ''2~5'' False = Inr (Some (Num 13))
   \<and> GetIntSliceFromBinary (Num 181) 8 ''2'' False = Inr (Some (Num 1))"
  using GetIntSliceFromBinary_bits[of 181 8 2 5] by (simp add: decimal_2_5)

text \<open>A range of one bit written \<open>a~a\<close> is rejected by the guard \<open>start < end\<close>.\<close>

lemma GetIntSliceFromBinary_degenerate:
  assumes "0 \<le> v" and "v < 2 ^ n" and "0 < n"
  shows "GetIntSliceFromBinary (Num v) n (digits_of 10 a @ ''~'' @ digits_of 10 a) sg = Inr None"
proof -
  note bs = binaryString_fixed[OF assms]
  have parts: "js_split ''~'' (digits_of 10 a @ CHR ''~'' # digits_of 10 a)
               = [digits_of 10 a, digits_of 10 a]"
    using js_split_two[OF tilde_not_decimal tilde_not_decimal, of a a] by simp
  show ?thesis
    using bs(1) by (simp add: GetIntSliceFromBinary_def Let_def parts parse_decimal
        del: Number_toString.simps)
qed

section \<open>Buffers in hexadecimal\<close>

text \<open>
  The hexadecimal text of a buffer is the fixed-width digit string of its big-endian
  value, so \<open>parseInt\<close> of it is that value and \<open>Buffer.from\<close> of it is the buffer.
\<close>

lemma be_nat_snoc: "be_nat (bs @ [b]) = be_nat bs * 256 + unat b"
  by (simp add: be_nat_def)

lemma be_nat_Nil: "be_nat [] = 0"
  by (simp add: be_nat_def)

lemma unat_byte_less: "unat (b :: byte) < 256"
  using unsigned_less[of b, where 'a=nat] by simp

lemma be_nat_less: "be_nat bs < 256 ^ length bs"
proof (induction bs rule: rev_induct)
  case Nil
  show ?case by (simp add: be_nat_Nil)
next
  case (snoc b bs)
  have "be_nat bs * 256 + unat b < (be_nat bs + 1) * 256"
    using unat_byte_less[of b] by simp
  also have "\<dots> \<le> 256 ^ length bs * 256"
    using snoc by (intro mult_le_mono1) simp
  finally show ?case by (simp add: be_nat_snoc)
qed

lemma toString_hex_snoc: "toString_hex (bs @ [b]) = toString_hex bs @ byte_hex b"
  by (simp add: toString_hex_def)

lemma fixed_digits_two_more:
  assumes "x < 256"
  shows "fixed_digits 16 (Suc (Suc m)) (n * 256 + x)
         = fixed_digits 16 m n @ [digit_char (x div 16), digit_char (x mod 16)]"
proof -
  have e: "n * 256 + x = (n * 16) * 16 + x" by simp
  have a: "(n * 256 + x) div 16 = n * 16 + x div 16"
    unfolding e using div_mult_self3[of 16 "n * 16" x] by simp
  have b: "(n * 256 + x) mod 16 = x mod 16"
    unfolding e using mod_mult_self3[of "n * 16" 16 x] by simp
  have y: "x div 16 < 16" using assms by simp
  have c: "(n * 16 + x div 16) div 16 = n"
    using div_mult_self3[of 16 n "x div 16"] y by simp
  have d: "(n * 16 + x div 16) mod 16 = x div 16"
    using mod_mult_self3[of n 16 "x div 16"] y by simp
  show ?thesis
    unfolding fixed_digits.simps a b c d by simp
qed

lemma toString_hex_fixed: "toString_hex bs = fixed_digits 16 (2 * length bs) (be_nat bs)"
proof (induction bs rule: rev_induct)
  case Nil
  show ?case by (simp add: toString_hex_def)
next
  case (snoc b bs)
  have "fixed_digits 16 (Suc (Suc (2 * length bs))) (be_nat bs * 256 + unat b)
        = fixed_digits 16 (2 * length bs) (be_nat bs) @ byte_hex b"
    unfolding byte_hex_def by (rule fixed_digits_two_more) (rule unat_byte_less)
  then show ?case using snoc
    by (simp add: toString_hex_snoc be_nat_snoc del: fixed_digits.simps)
qed

lemma be_nat_less16: "be_nat bs < 16 ^ (2 * length bs)"
  using be_nat_less[of bs] by (simp add: power_mult)

lemma parseInt_toString_hex:
  assumes "bs \<noteq> []"
  shows "parseInt (toString_hex bs) 16 = Num (int (be_nat bs))"
proof -
  have ne: "toString_hex bs \<noteq> []"
    using assms length_fixed_digits[of 16 "2 * length bs" "be_nat bs"]
    by (auto simp: toString_hex_fixed simp del: fixed_digits.simps)
  have "parseInt (toString_hex bs) 16 = Num (int (digits_value 16 (toString_hex bs)))"
    by (rule parseInt_digits[OF ne]) (simp_all add: toString_hex_fixed fixed_digits_all_digits)
  then show ?thesis
    using be_nat_less16[of bs] by (simp add: toString_hex_fixed fixed_digits_value)
qed

lemma parseInt_toString_hex_Nil: "parseInt (toString_hex []) 16 = NaN"
  by (simp add: toString_hex_def parseInt_def)

lemma padStart_hex_be_nat:
  assumes "bs \<noteq> []"
  shows "padStart (2 * length bs) (CHR ''0'') (digits_of 16 (be_nat bs)) = toString_hex bs"
  using digits_of_fixed[of 16 "be_nat bs" "2 * length bs"] be_nat_less16[of bs] assms
  by (simp add: toString_hex_fixed)

lemma is_digit_16_digit_char: "d < 16 \<Longrightarrow> is_digit 16 (digit_char d)"
  by (rule is_digit_digit_char) simp_all

lemma from_hex_byte: "from_hex (byte_hex b @ rest) = b # from_hex rest"
proof -
  have hi: "unat b div 16 < 16" using unat_byte_less[of b] by simp
  have lo: "unat b mod 16 < 16" by simp
  have hi': "digit_val (digit_char (unat b div 16)) = Some (unat b div 16)"
    using hi by (intro digit_char_val) simp
  have lo': "digit_val (digit_char (unat b mod 16)) = Some (unat b mod 16)"
    by (intro digit_char_val) simp
  have "digits_value 16 [digit_char (unat b div 16), digit_char (unat b mod 16)] = unat b"
    by (simp add: digits_value_def hi' lo')
  then show ?thesis
    using is_digit_16_digit_char[OF hi] is_digit_16_digit_char[OF lo]
    by (simp add: byte_hex_def)
qed

lemma from_hex_toString_hex: "from_hex (toString_hex bs) = bs"
  by (induction bs) (simp_all add: toString_hex_def from_hex_byte)

section \<open>What each handler leaves alone\<close>

text \<open>
  The socket is written by \<open>SendACK\<close> and \<open>SendCommand\<close> only, the picture and its sinks
  by \<open>HandlePictureMsg\<close> only, the time-series store by \<open>WriteReport\<close> only.
\<close>

lemma SendACK_fields:
  "picture (SendACK st) = picture st" "pictureWrites (SendACK st) = pictureWrites st"
  "timeSeriesWrites (SendACK st) = timeSeriesWrites st" "seqNum (SendACK st) = seqNum st"
  "deviceID (SendACK st) = deviceID st" "reportFinalFormat (SendACK st) = reportFinalFormat st"
  by (simp_all add: SendACK_def Let_def split: option.splits)

lemma WriteReport_fields:
  "WriteReport dec st ls = Inr st' \<Longrightarrow>
     socketWrites st' = socketWrites st \<and> picture st' = picture st
     \<and> pictureWrites st' = pictureWrites st \<and> seqNum st' = seqNum st
     \<and> deviceID st' = deviceID st"
proof (induction ls arbitrary: st)
  case Nil
  then show ?case by simp
next
  case (Cons l ls)
  show ?case
  proof (cases "CheckReportMsg l")
    case False
    with Cons show ?thesis by simp
  next
    case True
    with Cons.prems obtain d dev where
      "WriteReport dec
         (st\<lparr>timeSeriesWrites := timeSeriesWrites st @
            [(id_toString 10 dev,
              (case nth_opt (js_split '','' l) 1 of Some t \<Rightarrow> t | None \<Rightarrow> ''undefined'')
                @ replicate 9 (CHR ''0''), d)]\<rparr>) ls = Inr st'"
      by (auto simp: Let_def split: sum.splits option.splits)
    from Cons.IH[OF this] show ?thesis by simp
  qed
qed

lemma SaveReportFormat_fields:
  "SaveReportFormat st cmd arg = Inr st' \<Longrightarrow>
     socketWrites st' = socketWrites st \<and> picture st' = picture st
     \<and> pictureWrites st' = pictureWrites st \<and> timeSeriesWrites st' = timeSeriesWrites st
     \<and> seqNum st' = seqNum st \<and> deviceID st' = deviceID st"
  by (auto simp: SaveReportFormat_def Let_def split: if_splits option.splits)

lemma UpdateReportFormatStatus_fields:
  "socketWrites (snd (UpdateReportFormatStatus st)) = socketWrites st"
  "picture (snd (UpdateReportFormatStatus st)) = picture st"
  "pictureWrites (snd (UpdateReportFormatStatus st)) = pictureWrites st"
  "timeSeriesWrites (snd (UpdateReportFormatStatus st)) = timeSeriesWrites st"
  "seqNum (snd (UpdateReportFormatStatus st)) = seqNum st"
  "deviceID (snd (UpdateReportFormatStatus st)) = deviceID st"
  by (simp_all add: UpdateReportFormatStatus_def split: option.splits)

lemma HandleOtherLines_fields:
  "HandleOtherLines st ls = Inr st' \<Longrightarrow>
     socketWrites st' = socketWrites st \<and> picture st' = picture st
     \<and> pictureWrites st' = pictureWrites st \<and> timeSeriesWrites st' = timeSeriesWrites st
     \<and> seqNum st' = seqNum st \<and> deviceID st' = deviceID st"
proof (induction ls arbitrary: st)
  case Nil
  then show ?case by simp
next
  case (Cons l ls)
  consider (skip) "HandleOtherLines st ls = Inr st'"
    | (save) cmd arg st1 where "SaveReportFormat st cmd arg = Inr st1"
        "HandleOtherLines (snd (UpdateReportFormatStatus st1)) ls = Inr st'"
    using Cons.prems
    by (auto split: if_splits list.splits sum.splits)
  then show ?case
  proof cases
    case skip
    then show ?thesis by (rule Cons.IH)
  next
    case save
    from Cons.IH[OF save(2)] SaveReportFormat_fields[OF save(1)]
    show ?thesis by (simp add: UpdateReportFormatStatus_fields)
  qed
qed

lemma HandleOtherMsg_fields:
  "HandleOtherMsg st buf = Inr st' \<Longrightarrow>
     socketWrites st' = socketWrites st \<and> picture st' = picture st
     \<and> pictureWrites st' = pictureWrites st \<and> timeSeriesWrites st' = timeSeriesWrites st
     \<and> seqNum st' = seqNum st \<and> deviceID st' = deviceID st"
  using HandleOtherLines_fields[of st _ st']
  by (auto simp: HandleOtherMsg_def split: if_splits)

lemma HandleKeepAliveMsg_fields:
  "HandleKeepAliveMsg st buf = Inr st' \<Longrightarrow>
     socketWrites st' = socketWrites st \<and> picture st' = picture st
     \<and> pictureWrites st' = pictureWrites st \<and> timeSeriesWrites st' = timeSeriesWrites st"
  by (auto simp: HandleKeepAliveMsg_def split: sum.splits)

lemma HandleReportMsgAscii_fields:
  "HandleReportMsgAscii dec st buf = Inr st' \<Longrightarrow>
     socketWrites st' = socketWrites st \<and> picture st' = picture st
     \<and> pictureWrites st' = pictureWrites st"
  by (auto simp: HandleReportMsgAscii_def Let_def split: prod.splits if_splits
           dest!: WriteReport_fields)

lemma CheckReportType_fields:
  "socketWrites (CheckReportType st buf) = socketWrites st"
  "picture (CheckReportType st buf) = picture st"
  "pictureWrites (CheckReportType st buf) = pictureWrites st"
  "timeSeriesWrites (CheckReportType st buf) = timeSeriesWrites st"
  "reportFinalFormat (CheckReportType st buf) = reportFinalFormat st"
  by (simp_all add: CheckReportType_def)

lemma HandleReportMsg_fields:
  "HandleReportMsg dec st buf = Inr st' \<Longrightarrow>
     socketWrites st' = socketWrites st \<and> picture st' = picture st
     \<and> pictureWrites st' = pictureWrites st"
  using HandleReportMsgAscii_fields[of dec "CheckReportType st buf" buf st']
  by (auto simp: HandleReportMsg_def Let_def HandleReportMsgBinary_def CheckReportType_fields
           split: if_splits)

lemma HandlePictureMsg_socket:
  "HandlePictureMsg e st buf = Inr st' \<Longrightarrow> socketWrites st' = socketWrites st"
  by (auto simp: HandlePictureMsg_def Let_def split: sum.splits option.splits prod.splits if_splits)

lemma handlers_keep_socket:
  assumes "(if js_slice buf 0 2 = [0xFE, 0x02] \<and> length buf = 12 then HandleKeepAliveMsg st buf
            else if js_slice buf 0 2 = [0x40, 0x50] then HandleReportMsg dec st buf
            else if js_slice buf 0 2 = [0x40, 0x52] then HandlePictureMsg e st buf
            else HandleOtherMsg st buf) = Inr st1"
  shows "socketWrites st1 = socketWrites st"
  using assms HandleKeepAliveMsg_fields[of st buf st1] HandleReportMsg_fields[of dec st buf st1]
    HandlePictureMsg_socket[of e st buf st1] HandleOtherMsg_fields[of st buf st1]
  by (auto split: if_splits)

lemma SendACK_falsy:
  "seqNum st = Some (Num 0) \<or> deviceID st = Some (BigInt 0) \<or> deviceID st = Some (Number (Num 0))
   \<Longrightarrow> SendACK st = st"
  by (auto simp: SendACK_def split: option.splits)

text \<open>
  Claim C9. In every state where the device identifier is set but the sequence number is
  \<open>0\<close>, or the identifier is \<open>0\<close>, \<open>SendACK\<close> writes nothing to the socket; so a frame
  after which the sequence number is \<open>0\<close> is never acknowledged, although identifier and
  sequence number are both known.
\<close>

theorem SendACK_zero_never_acknowledged:
  "(deviceID st \<noteq> None \<and>
      (seqNum st = Some (Num 0) \<or> deviceID st = Some (BigInt 0)
        \<or> deviceID st = Some (Number (Num 0)))
      \<longrightarrow> socketWrites (SendACK st) = socketWrites st)
   \<and> (RecievedData dec e now st0 buf = Inr st' \<and> deviceID st' \<noteq> None \<and> seqNum st' = Some (Num 0)
      \<longrightarrow> socketWrites st' = socketWrites st0)"
proof (intro conjI impI)
  assume "deviceID st \<noteq> None \<and>
      (seqNum st = Some (Num 0) \<or> deviceID st = Some (BigInt 0)
        \<or> deviceID st = Some (Number (Num 0)))"
  then show "socketWrites (SendACK st) = socketWrites st"
    using SendACK_falsy[of st] by simp
next
  assume a: "RecievedData dec e now st0 buf = Inr st' \<and> deviceID st' \<noteq> None \<and> seqNum st' = Some (Num 0)"
  then obtain st1 where h: "(if js_slice buf 0 2 = [0xFE, 0x02] \<and> length buf = 12 then HandleKeepAliveMsg st0 buf
            else if js_slice buf 0 2 = [0x40, 0x50] then HandleReportMsg dec st0 buf
            else if js_slice buf 0 2 = [0x40, 0x52] then HandlePictureMsg e st0 buf
            else HandleOtherMsg st0 buf) = Inr st1"
    and st': "st' = SendACK (st1\<lparr>lastAlive := now\<rparr>)"
    by (auto simp: RecievedData_def Let_def split: sum.splits)
  have "seqNum (st1\<lparr>lastAlive := now\<rparr>) = Some (Num 0)"
    using a st' by (simp add: SendACK_fields)
  then have "SendACK (st1\<lparr>lastAlive := now\<rparr>) = st1\<lparr>lastAlive := now\<rparr>"
    by (intro SendACK_falsy) simp
  then show "socketWrites st' = socketWrites st0"
    using st' handlers_keep_socket[OF h] by simp
qed

section \<open>Keep-alive frames and their acknowledgment\<close>

text \<open>
  A keep-alive frame sets the device identifier and the sequence number to the
  big-endian values of its bytes, and the acknowledgment built from two non-zero values
  is the frame itself.
\<close>

lemma be_bytes_be_nat: "be_bytes (length bs) (be_nat bs) = bs"
proof (induction bs rule: rev_induct)
  case Nil
  show ?case by simp
next
  case (snoc b bs)
  have d: "(be_nat bs * 256 + unat b) div 256 = be_nat bs"
    using div_mult_self3[of 256 "be_nat bs" "unat b"] unat_byte_less[of b] by simp
  have m: "(be_nat bs * 256 + unat b) mod 256 = unat b"
    using mod_mult_self3[of "be_nat bs" 256 "unat b"] unat_byte_less[of b] by simp
  have m': "unat b mod 256 = unat b" using unat_byte_less[of b] by simp
  show ?case using snoc by (simp add: be_nat_snoc d m')
qed

lemma RecievedData_keepalive:
  assumes "length buf = 12" and "js_slice buf 0 2 = [0xFE, 0x02]"
  shows "RecievedData dec e now st buf =
           Inr (SendACK (st\<lparr>deviceID := Some (BigInt (be_nat (js_slice buf 2 10))),
                           seqNum := Some (Num (int (be_nat (js_slice buf 10 12)))),
                           lastAlive := now\<rparr>))"
proof -
  have l8: "length (js_slice buf 2 10) = 8" and l2: "length (js_slice buf 10 12) = 2"
    using assms(1) by (simp_all add: js_slice_def js_index_def)
  have ne: "js_slice buf 10 12 \<noteq> []" using l2 by auto
  show ?thesis
    using assms l8 by (simp add: RecievedData_def HandleKeepAliveMsg_def readBigUint64BE_def
        parseInt_toString_hex[OF ne])
qed

lemma keepalive_parts:
  assumes "length buf = 12" and "js_slice buf 0 2 = [0xFE, 0x02]"
  shows "buf = [0xFE, 0x02] @ js_slice buf 2 10 @ js_slice buf 10 12"
proof -
  have "buf = take 2 buf @ take 8 (drop 2 buf) @ drop 10 buf"
    by (metis append_take_drop_id drop_drop numeral_Bit0 add_numeral_left numeral_plus_numeral
        semiring_norm(2,3,4,6,7) add.commute)
  then show ?thesis using assms by (simp add: js_slice_def js_index_def)
qed

lemma SendACK_echo:
  assumes "length buf = 12" and "js_slice buf 0 2 = [0xFE, 0x02]"
    and "deviceID st = Some (BigInt (be_nat (js_slice buf 2 10)))"
    and "seqNum st = Some (Num (int (be_nat (js_slice buf 10 12))))"
    and "be_nat (js_slice buf 2 10) \<noteq> 0" and "be_nat (js_slice buf 10 12) \<noteq> 0"
  shows "SendACK st = st\<lparr>socketWrites := socketWrites st @ [buf]\<rparr>"
proof -
  have l8: "length (js_slice buf 2 10) = 8" and l2: "length (js_slice buf 10 12) = 2"
    using assms(1) by (simp_all add: js_slice_def js_index_def)
  have ne8: "js_slice buf 2 10 \<noteq> []" and ne2: "js_slice buf 10 12 \<noteq> []"
    using l8 l2 by auto
  have p8: "padStart 16 (CHR ''0'') (digits_of 16 (be_nat (js_slice buf 2 10)))
            = toString_hex (js_slice buf 2 10)"
    using padStart_hex_be_nat[OF ne8] l8 by simp
  have p2: "padStart 4 (CHR ''0'') (digits_of 16 (be_nat (js_slice buf 10 12)))
            = toString_hex (js_slice buf 10 12)"
    using padStart_hex_be_nat[OF ne2] l2 by simp
  have "toString_hex [0xFE, 0x02] = ''fe02''"
    by (simp add: toString_hex_def byte_hex_def digit_char_def char_of_eq_iff)
  then have mark: "''fe02'' = toString_hex [0xFE, 0x02]" by simp
  have "from_hex (''fe02'' @ toString_hex (js_slice buf 2 10) @ toString_hex (js_slice buf 10 12))
        = from_hex (toString_hex ([0xFE, 0x02] @ js_slice buf 2 10 @ js_slice buf 10 12))"
    unfolding mark by (simp add: toString_hex_def)
  also have "\<dots> = buf"
    using keepalive_parts[OF assms(1,2)] by (simp only: from_hex_toString_hex)
  finally have ack: "from_hex (''fe02'' @ toString_hex (js_slice buf 2 10)
                       @ toString_hex (js_slice buf 10 12)) = buf" .
  have ack': "from_hex (CHR ''f'' # CHR ''e'' # CHR ''0'' # CHR ''2'' #
                  toString_hex (js_slice buf 2 10) @ toString_hex (js_slice buf 10 12)) = buf"
    using ack by (simp del: from_hex.simps)
  show ?thesis
    using assms(3-6) by (simp add: SendACK_def p8 p2 ack' del: from_hex.simps)
qed

lemma keepalive_acknowledged:
  assumes "length buf = 12" and "js_slice buf 0 2 = [0xFE, 0x02]"
    and "be_nat (js_slice buf 2 10) \<noteq> 0" and "be_nat (js_slice buf 10 12) \<noteq> 0"
  shows "\<exists>st'. RecievedData dec e now st buf = Inr st'
           \<and> deviceID st' = Some (BigInt (be_nat (js_slice buf 2 10)))
           \<and> seqNum st' = Some (Num (int (be_nat (js_slice buf 10 12))))
           \<and> socketWrites st' = socketWrites st @ [buf]
           \<and> buf = [0xFE, 0x02] @ be_bytes 8 (be_nat (js_slice buf 2 10))
                      @ be_bytes 2 (be_nat (js_slice buf 10 12))"
proof -
  let ?st1 = "st\<lparr>deviceID := Some (BigInt (be_nat (js_slice buf 2 10))),
                 seqNum := Some (Num (int (be_nat (js_slice buf 10 12)))),
                 lastAlive := now\<rparr>"
  have l8: "length (js_slice buf 2 10) = 8" and l2: "length (js_slice buf 10 12) = 2"
    using assms(1) by (simp_all add: js_slice_def js_index_def)
  have b8: "be_bytes 8 (be_nat (js_slice buf 2 10)) = js_slice buf 2 10"
    using be_bytes_be_nat[of "js_slice buf 2 10"] l8 by simp
  have b2: "be_bytes 2 (be_nat (js_slice buf 10 12)) = js_slice buf 10 12"
    using be_bytes_be_nat[of "js_slice buf 10 12"] l2 by simp
  have "SendACK ?st1 = ?st1\<lparr>socketWrites := socketWrites ?st1 @ [buf]\<rparr>"
    using assms by (intro SendACK_echo) simp_all
  then show ?thesis
    using RecievedData_keepalive[OF assms(1,2), of dec e now st] keepalive_parts[OF assms(1,2)]
    by (simp add: b8 b2)
qed

lemma keepalive_seq0_facts:
  "length keepalive_seq0 = 12" "js_slice keepalive_seq0 0 2 = [0xFE, 0x02]"
  "be_nat (js_slice keepalive_seq0 2 10) = 258" "be_nat (js_slice keepalive_seq0 10 12) = 0"
  by (simp_all add: keepalive_seq0_def js_slice_def js_index_def be_nat_def)

lemma keepalive_seq7_facts:
  "length keepalive_seq7 = 12" "js_slice keepalive_seq7 0 2 = [0xFE, 0x02]"
  "be_nat (js_slice keepalive_seq7 2 10) = 258" "be_nat (js_slice keepalive_seq7 10 12) = 7"
  by (simp_all add: keepalive_seq7_def js_slice_def js_index_def be_nat_def)

lemma keepalive_seq0_run:
  "RecievedData dec e now st keepalive_seq0 =
     Inr (st\<lparr>deviceID := Some (BigInt 258), seqNum := Some (Num 0), lastAlive := now\<rparr>)"
  using RecievedData_keepalive[OF keepalive_seq0_facts(1,2), of dec e now st]
  by (simp add: keepalive_seq0_facts SendACK_def)

text \<open>
  Claim C1. For a keep-alive frame the device identifier and the sequence number are set
  to the big-endian integers of the frame and the acknowledgment repeats them
  (\<open>keepalive_acknowledged\<close>, when neither is zero). The keep-alive frame of device \<open>258\<close>
  with sequence number \<open>0\<close> sets both fields as well, but no acknowledgment is written
  for it.
\<close>

theorem keepalive_seq0_not_acknowledged:
  "\<exists>st'. RecievedData sample_decoder sample_env 1 fresh keepalive_seq0 = Inr st'
         \<and> deviceID st' = Some (BigInt 258) \<and> seqNum st' = Some (Num 0)
         \<and> socketWrites st' = []"
  by (simp add: keepalive_seq0_run fresh_def ClientSocket_constructor_def)

theorem SendACK_zero_never_acknowledged_witness:
  "RecievedData sample_decoder sample_env 1 fresh keepalive_seq0
     = Inr (fresh\<lparr>deviceID := Some (BigInt 258), seqNum := Some (Num 0), lastAlive := 1\<rparr>)
   \<and> socketWrites (fresh\<lparr>deviceID := Some (BigInt 258), seqNum := Some (Num 0), lastAlive := 1\<rparr>)
       = socketWrites fresh
   \<and> socketWrites (SendACK (fresh\<lparr>deviceID := Some (BigInt 258), seqNum := Some (Num 0)\<rparr>))
       = socketWrites (fresh\<lparr>deviceID := Some (BigInt 258), seqNum := Some (Num 0)\<rparr>)"
  using SendACK_zero_never_acknowledged[of "fresh\<lparr>deviceID := Some (BigInt 258), seqNum := Some (Num 0)\<rparr>"
      sample_decoder sample_env 1 fresh keepalive_seq0
      "fresh\<lparr>deviceID := Some (BigInt 258), seqNum := Some (Num 0), lastAlive := 1\<rparr>"]
  by (simp add: keepalive_seq0_run)

section \<open>The TPMS and g-force decoders on sample values\<close>

text \<open>The rounding function on a few values, ties included.\<close>

lemma fl_samples:
  "fl (1 / 10) = 3602879701896397 / 36028797018963968"
  "fl (2 ^ 53 + 1) = 2 ^ 53"
  "fl (2 ^ 53 + 3) = 2 ^ 53 + 4"
  "fl (- 424) = - 424"
  by code_simp+

text \<open>
  Claim C4. With the coefficients \<open>pressure_slope = 0.3625\<close>, \<open>pressure_const = 0\<close>,
  \<open>temp_slope = 3\<close> and \<open>temp_const = -424\<close>, \<open>GetValueTPMS\<close> of \<open>"D0DC9911"\<close> is
  \<open>tire_temp_1 = 35\<close> of kind int followed by \<open>tire_pressure_1 = 6.1625\<close> of kind float
  (a decimal literal stands for the double nearest to it); and a raw value whose length
  is not a multiple of eight gives none.
\<close>

theorem GetValueTPMS_sample:
  "GetValueTPMS ''D0DC9911'' tpms_info
     = Inr (Some [\<lparr>name = ''tire_temp_1'', dbtype = ''int'', val = Dbl 35\<rparr>,
                  \<lparr>name = ''tire_pressure_1'', dbtype = ''float'',
                    val = Dbl (fl (61625 / 10000))\<rparr>])
   \<and> (length rawValue mod 8 \<noteq> 0 \<longrightarrow> GetValueTPMS rawValue patternInfo = Inr None)"
proof
  show "GetValueTPMS ''D0DC9911'' tpms_info
     = Inr (Some [\<lparr>name = ''tire_temp_1'', dbtype = ''int'', val = Dbl 35\<rparr>,
                  \<lparr>name = ''tire_pressure_1'', dbtype = ''float'',
                    val = Dbl (fl (61625 / 10000))\<rparr>])"
    by code_simp
  show "length rawValue mod 8 \<noteq> 0 \<longrightarrow> GetValueTPMS rawValue patternInfo = Inr None"
    by (simp add: GetValueTPMS_def)
qed

theorem GetValueTPMS_sample_witness:
  "length ''1234ABCD123'' mod 8 \<noteq> 0 \<and> GetValueTPMS ''1234ABCD123'' tpms_info = Inr None"
  using GetValueTPMS_sample[of "''1234ABCD123''" tpms_info] by simp

text \<open>The three coefficients that the guards of \<open>GetValueTPMS\<close> do check.\<close>

lemma GetValueTPMS_missing_other_coefficient:
  "pressure_slope patternInfo = None \<or> temp_slope patternInfo = None
     \<or> temp_const patternInfo = None
   \<Longrightarrow> GetValueTPMS rawValue patternInfo = Inr None"
  by (auto simp: GetValueTPMS_def)

text \<open>
  Claim C8. A TPMS raw value whose length is a multiple of eight gives none when one of
  the four coefficients is not configured. Evaluated on \<open>"D0DC9911"\<close> with
  \<open>pressure_const\<close> missing, the decoder does not give none: it emits the temperature and
  a pressure that is \<open>NaN\<close>.
\<close>

theorem GetValueTPMS_missing_pressure_const:
  "length ''D0DC9911'' mod 8 = 0 \<and> pressure_const tpms_info_no_const = None
   \<and> GetValueTPMS ''D0DC9911'' tpms_info_no_const
     = Inr (Some [\<lparr>name = ''tire_temp_1'', dbtype = ''int'', val = Dbl 35\<rparr>,
                  \<lparr>name = ''tire_pressure_1'', dbtype = ''float'', val = DNaN\<rparr>])"
  by code_simp

text \<open>
  Three groups that parse give three values. \<open>ParseHexStringToSignedInt\<close> never returns
  \<open>undefined\<close>, so no group is ever left out: it is decoded or the decode throws.
\<close>

lemma GetValueGForce_sample:
  "GetValueGForce ''00FF00010002'' gforce_info
     = Inr (Some [\<lparr>name = ''gforce_x'', dbtype = ''int'', val = Num 255\<rparr>,
                  \<lparr>name = ''gforce_y'', dbtype = ''int'', val = Num 1\<rparr>,
                  \<lparr>name = ''gforce_z'', dbtype = ''int'', val = Num 2\<rparr>])"
  by code_simp

lemma ParseHexStringToSignedInt_never_undefined:
  "ParseHexStringToSignedInt hexString n \<noteq> Inr None"
  by (simp add: ParseHexStringToSignedInt_def split: sum.splits)

text \<open>
  Claim C5. A g-force input of at least twelve characters is split into three groups of
  four hexadecimal characters; a group that does not parse is left out, the others are
  emitted, and no error is raised. Evaluated on \<open>"ZZZZ00010002"\<close>, whose first group does
  not parse, the decoder raises the error of \<open>ParseBinaryToSinged\<close>.
\<close>

theorem GetValueGForce_throws:
  "12 \<le> length ''ZZZZ00010002''
   \<and> GetValueGForce ''ZZZZ00010002'' gforce_info = Inl (Error ''Invalid binary string'')"
  by code_simp

section \<open>Picture reassembly\<close>

text \<open>
  Adding a package appends its payload, stores its index and keeps the declared total.
\<close>

lemma AddPicturePackage_result:
  "pictureContent (fst (AddPicturePackage p b)) = pictureContent p @ package_payload b"
  "currentPackageID (fst (AddPicturePackage p b)) = package_index b"
  "totalPackageCount (fst (AddPicturePackage p b)) = totalPackageCount p"
  by (simp_all add: AddPicturePackage_def package_payload_def package_index_def Let_def
      split: prod.splits)

lemma Picture_constructor_result:
  "pictureContent (Picture_constructor e b d) = package_payload b"
  "currentPackageID (Picture_constructor e b d) = package_index b"
  "totalPackageCount (Picture_constructor e b d) = package_total b"
  by (simp_all add: Picture_constructor_def package_payload_def package_index_def
      package_total_def Let_def split: prod.splits)

lemma AddPicturePackages_snoc:
  "AddPicturePackages p (bs @ [b]) = fst (AddPicturePackage (AddPicturePackages p bs) b)"
  by (simp add: AddPicturePackages_def)

lemma AddPicturePackages_total:
  "totalPackageCount (AddPicturePackages p bs) = totalPackageCount p"
  by (induction bs rule: rev_induct)
     (simp_all add: AddPicturePackages_snoc AddPicturePackage_result, simp add: AddPicturePackages_def)

lemma AddPicturePackages_content:
  "pictureContent (AddPicturePackages p bs) = pictureContent p @ concat (map package_payload bs)"
  by (induction bs rule: rev_induct)
     (simp_all add: AddPicturePackages_snoc AddPicturePackage_result, simp add: AddPicturePackages_def)

lemma AddPicturePackages_current:
  "currentPackageID (AddPicturePackages p bs)
     = (if bs = [] then currentPackageID p else package_index (last bs))"
  by (induction bs rule: rev_induct)
     (simp_all add: AddPicturePackages_snoc AddPicturePackage_result, simp add: AddPicturePackages_def)

lemma package_payload_drop: "package_payload = drop 8"
  by (rule ext) (simp add: package_payload_def ExtractPictureFrame_def js_slice_from_def
      js_index_def min_def)

text \<open>
  Claim C6. For a transfer whose first packet declares a total of three packages: after
  any packets, the picture is done exactly when the package last applied has index
  three (so it is not done after the packets with indices one and two), the content is
  the concatenation, in order of application, of what follows the eight header bytes of
  every packet, and \<open>isDone\<close> holds exactly when the index last seen equals the declared
  total.
\<close>

theorem picture_reassembly:
  assumes "package_total first = Num 3"
  shows "pictureContent (AddPicturePackages (Picture_constructor e first dev) rest)
           = concat (map (drop 8) (first # rest))
       \<and> (isDone (AddPicturePackages (Picture_constructor e first dev) rest)
            \<longleftrightarrow> package_index (last (first # rest)) = Num 3)
       \<and> (isDone (AddPicturePackages (Picture_constructor e first dev) rest)
            \<longleftrightarrow> currentPackageID (AddPicturePackages (Picture_constructor e first dev) rest)
                 = totalPackageCount (AddPicturePackages (Picture_constructor e first dev) rest))
       \<and> (package_index (last (first # rest)) = Num 1 \<or> package_index (last (first # rest)) = Num 2
            \<longrightarrow> \<not> isDone (AddPicturePackages (Picture_constructor e first dev) rest))"
proof -
  let ?p = "AddPicturePackages (Picture_constructor e first dev) rest"
  have tot: "totalPackageCount ?p = Num 3"
    using assms by (simp add: AddPicturePackages_total Picture_constructor_result)
  have cur: "currentPackageID ?p = package_index (last (first # rest))"
    by (simp add: AddPicturePackages_current Picture_constructor_result)
  have con: "pictureContent ?p = concat (map (drop 8) (first # rest))"
    by (simp add: AddPicturePackages_content Picture_constructor_result package_payload_drop)
  have fin: "isDone ?p \<longleftrightarrow> package_index (last (first # rest)) = Num 3"
    unfolding isDone_def tot cur by (cases "package_index (last (first # rest))") simp_all
  show ?thesis
    using con fin tot cur by auto
qed

lemma sample_packages:
  "package_total package1of3 = Num 3"
  "package_index package1of3 = Num 1" "package_index package2of3 = Num 2"
  "package_index package3of3 = Num 3"
  "drop 8 package1of3 = [0xAA, 0xBB]" "drop 8 package2of3 = [0xCC]"
  "drop 8 package3of3 = [0xDD]"
  by code_simp+

theorem picture_reassembly_witness:
  "package_total package1of3 = Num 3
   \<and> pictureContent (AddPicturePackages (Picture_constructor sample_env package1of3 None)
                        [package2of3, package3of3]) = [0xAA, 0xBB, 0xCC, 0xDD]
   \<and> isDone (AddPicturePackages (Picture_constructor sample_env package1of3 None)
                [package2of3, package3of3])
   \<and> \<not> isDone (AddPicturePackages (Picture_constructor sample_env package1of3 None) [package2of3])
   \<and> \<not> isDone (AddPicturePackages (Picture_constructor sample_env package1of3 None) [])"
  using picture_reassembly[OF sample_packages(1), of sample_env None "[package2of3, package3of3]"]
    picture_reassembly[OF sample_packages(1), of sample_env None "[package2of3]"]
    picture_reassembly[OF sample_packages(1), of sample_env None "[]"]
  by (simp add: sample_packages)

section \<open>Picture frames on a connection\<close>

lemma package_index_empty: "package_index [] = NaN"
  by (simp add: package_index_def ExtractPictureFrame_def js_slice_def js_index_def
      toString_hex_def parseInt_def)

lemma picture_frame_long_enough:
  assumes "num_eq (package_index (js_slice_from buf 16)) t"
  shows "16 < length buf"
proof (rule ccontr)
  assume "\<not> 16 < length buf"
  then have "js_slice_from buf 16 = []" by (simp add: js_slice_from_def js_index_def)
  then show False using assms by (simp add: package_index_empty)
qed

lemma HandlePictureMsg_first:
  assumes "picture st = None" and "16 < length buf"
  shows "HandlePictureMsg e st buf =
           Inr (st\<lparr>seqNum := Some (parseInt (toString_hex (js_slice buf 6 8)) 16),
                   picture := Some (Picture_constructor e (js_slice_from buf 16) (deviceID st))\<rparr>)"
proof -
  have "length (js_slice buf 8 16) = 8"
    using assms(2) by (simp add: js_slice_def js_index_def)
  then show ?thesis
    using assms(1) by (simp add: HandlePictureMsg_def readBigUint64BE_def Let_def)
qed

lemma isDone_Picture_constructor:
  "isDone (Picture_constructor e b d) = num_eq (package_index b) (package_total b)"
  by (simp add: isDone_def Picture_constructor_def package_index_def package_total_def Let_def
      split: prod.splits)

lemma RecievedData_other_keeps_picture:
  assumes "RecievedData dec e now st buf = Inr st'" and "js_slice buf 0 2 \<noteq> [0x40, 0x52]"
  shows "picture st' = picture st \<and> pictureWrites st' = pictureWrites st"
proof -
  let ?h = "if js_slice buf 0 2 = [0xFE, 0x02] \<and> length buf = 12 then HandleKeepAliveMsg st buf
            else if js_slice buf 0 2 = [0x40, 0x50] then HandleReportMsg dec st buf
            else HandleOtherMsg st buf"
  have "RecievedData dec e now st buf =
          (case ?h of Inl err \<Rightarrow> Inl err | Inr st1 \<Rightarrow> Inr (SendACK (st1\<lparr>lastAlive := now\<rparr>)))"
    using assms(2) by (simp add: RecievedData_def Let_def)
  with assms(1) obtain st1 where h: "?h = Inr st1"
    and st': "st' = SendACK (st1\<lparr>lastAlive := now\<rparr>)"
    by (cases ?h) auto
  have "picture st1 = picture st \<and> pictureWrites st1 = pictureWrites st"
    using h HandleKeepAliveMsg_fields[of st buf st1] HandleReportMsg_fields[of dec st buf st1]
      HandleOtherMsg_fields[of st buf st1]
    by (auto split: if_splits)
  then show ?thesis using st' by (simp add: SendACK_fields)
qed

lemma RecievedAll_other_keeps_picture:
  "list_all (\<lambda>(t, b). js_slice b 0 2 \<noteq> [0x40, 0x52]) frames \<Longrightarrow>
   RecievedAll dec e st frames = Inr st' \<Longrightarrow>
   picture st' = picture st \<and> pictureWrites st' = pictureWrites st"
proof (induction frames arbitrary: st)
  case Nil
  then show ?case by simp
next
  case (Cons f frames)
  obtain t b where f: "f = (t, b)" by (cases f)
  from Cons.prems(2) f obtain st1 where
    one: "RecievedData dec e t st b = Inr st1" and more: "RecievedAll dec e st1 frames = Inr st'"
    by (auto split: sum.splits)
  have nb: "js_slice b 0 2 \<noteq> [0x40, 0x52]" using Cons.prems(1) f by simp
  have "list_all (\<lambda>(t, b). js_slice b 0 2 \<noteq> [0x40, 0x52]) frames"
    using Cons.prems(1) by simp
  from Cons.IH[OF this more] RecievedData_other_keeps_picture[OF one nb]
  show ?case by simp
qed

text \<open>
  Claim C10. A picture frame that arrives while no transfer is in progress and whose
  package index equals its declared total creates the transfer, which is done at once;
  nothing is written to a storage sink and the transfer is not discarded: it is still
  there, and still nothing is written, after any frames that are not picture frames.
\<close>

theorem single_packet_picture_stays:
  assumes "picture st = None" and "js_slice buf 0 2 = [0x40, 0x52]"
    and "num_eq (package_index (js_slice_from buf 16)) (package_total (js_slice_from buf 16))"
  shows "\<exists>st' p. RecievedData dec e now st buf = Inr st'
           \<and> picture st' = Some p \<and> isDone p
           \<and> pictureWrites st' = pictureWrites st
           \<and> (\<forall>frames st''.
                 list_all (\<lambda>(t, b). js_slice b 0 2 \<noteq> [0x40, 0x52]) frames
                 \<and> RecievedAll dec e st' frames = Inr st''
                 \<longrightarrow> picture st'' = Some p \<and> pictureWrites st'' = pictureWrites st)"
proof -
  let ?p = "Picture_constructor e (js_slice_from buf 16) (deviceID st)"
  let ?st1 = "st\<lparr>seqNum := Some (parseInt (toString_hex (js_slice buf 6 8)) 16),
                 picture := Some ?p\<rparr>"
  let ?st' = "SendACK (?st1\<lparr>lastAlive := now\<rparr>)"
  have len: "16 < length buf" using assms(3) by (rule picture_frame_long_enough)
  have ne: "\<not> (js_slice buf 0 2 = [0xFE, 0x02] \<and> length buf = 12)"
    and nr: "js_slice buf 0 2 \<noteq> [0x40, 0x50]"
    using assms(2) by simp_all
  have run: "RecievedData dec e now st buf = Inr ?st'"
    using ne nr assms(2) HandlePictureMsg_first[OF assms(1) len, of e]
    by (simp add: RecievedData_def Let_def)
  have pic: "picture ?st' = Some ?p" and wr: "pictureWrites ?st' = pictureWrites st"
    by (simp_all add: SendACK_fields)
  have dn: "isDone ?p" using assms(3) by (simp add: isDone_Picture_constructor)
  have later: "\<forall>frames st''.
                 list_all (\<lambda>(t, b). js_slice b 0 2 \<noteq> [0x40, 0x52]) frames
                 \<and> RecievedAll dec e ?st' frames = Inr st''
                 \<longrightarrow> picture st'' = Some ?p \<and> pictureWrites st'' = pictureWrites st"
    using RecievedAll_other_keeps_picture[of _ dec e ?st'] pic wr by metis
  show ?thesis
    using run pic wr dn later by blast
qed

lemma single_picture_frame_facts:
  "js_slice single_picture_frame 0 2 = [0x40, 0x52]"
  "num_eq (package_index (js_slice_from single_picture_frame 16))
          (package_total (js_slice_from single_picture_frame 16))"
  by code_simp+

theorem single_packet_picture_stays_witness:
  "picture fresh = None \<and> js_slice single_picture_frame 0 2 = [0x40, 0x52]
   \<and> num_eq (package_index (js_slice_from single_picture_frame 16))
             (package_total (js_slice_from single_picture_frame 16))
   \<and> (\<exists>st' p st''. RecievedData sample_decoder sample_env 1 fresh single_picture_frame = Inr st'
         \<and> picture st' = Some p \<and> isDone p \<and> pictureWrites st' = []
         \<and> RecievedAll sample_decoder sample_env st' [(2, keepalive_seq7)] = Inr st''
         \<and> picture st'' = Some p \<and> pictureWrites st'' = [])"
proof -
  have a: "picture fresh = None" and w: "pictureWrites fresh = []"
    by (simp_all add: fresh_def ClientSocket_constructor_def)
  note b = single_picture_frame_facts(1) and c = single_picture_frame_facts(2)
  from single_packet_picture_stays[OF a b c, of sample_decoder sample_env 1]
  obtain st' p where run: "RecievedData sample_decoder sample_env 1 fresh single_picture_frame = Inr st'"
    and pic: "picture st' = Some p" "isDone p" "pictureWrites st' = pictureWrites fresh"
    and later: "\<And>frames st''. list_all (\<lambda>(t, b). js_slice b 0 2 \<noteq> [0x40, 0x52]) frames
                 \<Longrightarrow> RecievedAll sample_decoder sample_env st' frames = Inr st''
                 \<Longrightarrow> picture st'' = Some p \<and> pictureWrites st'' = pictureWrites fresh"
    by blast
  obtain st'' where next_frame: "RecievedAll sample_decoder sample_env st' [(2, keepalive_seq7)] = Inr st''"
    using RecievedData_keepalive[OF keepalive_seq7_facts(1,2), of sample_decoder sample_env 2 st']
    by simp
  have "list_all (\<lambda>(t, b). js_slice b 0 2 \<noteq> [0x40, 0x52]) [(2 :: nat, keepalive_seq7)]"
    by (simp add: keepalive_seq7_facts)
  from later[OF this next_frame] have "picture st'' = Some p \<and> pictureWrites st'' = []"
    using w by simp
  then show ?thesis
    using a b c run pic next_frame w by auto
qed

section \<open>Reports before the format is resolved\<close>

lemma HandleReportMsgAscii_gated:
  "reportFinalFormat st = None \<Longrightarrow>
   HandleReportMsgAscii dec st buf =
     Inr (st\<lparr>deviceID := (if deviceID st = None
                            then Some (Number (snd (report_seq_and_id buf))) else deviceID st),
             seqNum := Some (fst (report_seq_and_id buf))\<rparr>)"
  by (simp add: HandleReportMsgAscii_def report_seq_and_id_def Let_def split: prod.splits)

lemma CheckReportType_ascii:
  "reportType (CheckReportType st buf) = Some ''ascii'' \<Longrightarrow>
   CheckReportType st buf = st\<lparr>reportType := Some ''ascii''\<rparr>"
  by (auto simp: CheckReportType_def split: if_splits)

lemma RecievedData_premature_report:
  assumes "reportFinalFormat st = None" and "js_slice buf 0 2 = [0x40, 0x50]"
    and "reportType (CheckReportType st buf) = Some ''ascii''"
  shows "RecievedData dec e now st buf =
           Inr (SendACK (st\<lparr>reportType := Some ''ascii'',
                           deviceID := (if deviceID st = None
                                        then Some (Number (snd (report_seq_and_id buf)))
                                        else deviceID st),
                           seqNum := Some (fst (report_seq_and_id buf)),
                           lastAlive := now\<rparr>))"
proof -
  have g: "reportFinalFormat (st\<lparr>reportType := Some ''ascii''\<rparr>) = None"
    using assms(1) by simp
  have "HandleReportMsg dec st buf =
          HandleReportMsgAscii dec (st\<lparr>reportType := Some ''ascii''\<rparr>) buf"
    using assms(3) CheckReportType_ascii[OF assms(3)] by (simp add: HandleReportMsg_def Let_def)
  then show ?thesis
    using assms(2) by (simp add: RecievedData_def Let_def HandleReportMsgAscii_gated[OF g])
qed

text \<open>
  Claim C7. An ASCII report frame that arrives while the final format is unset writes
  nothing to the time-series store and is not kept: the state after it does not depend
  on the decoder, and two such frames with the same sequence number and device
  identifier in the header lead to the same state, whatever their bodies are, so that
  every later run, a resolution of the format included, is the same after either.
\<close>

theorem premature_report_dropped:
  assumes "reportFinalFormat st = None" and "js_slice buf 0 2 = [0x40, 0x50]"
    and "reportType (CheckReportType st buf) = Some ''ascii''"
  shows "\<exists>st'. RecievedData dec e now st buf = Inr st'
           \<and> timeSeriesWrites st' = timeSeriesWrites st \<and> reportFinalFormat st' = None
           \<and> (\<forall>dec'. RecievedData dec' e now st buf = Inr st')
           \<and> (\<forall>buf' later.
                 js_slice buf' 0 2 = [0x40, 0x50]
                 \<and> reportType (CheckReportType st buf') = Some ''ascii''
                 \<and> report_seq_and_id buf' = report_seq_and_id buf
                 \<longrightarrow> RecievedData dec e now st buf' = Inr st'
                     \<and> RecievedAll dec e st ((now, buf') # later)
                         = RecievedAll dec e st ((now, buf) # later))"
proof -
  let ?st' = "SendACK (st\<lparr>reportType := Some ''ascii'',
                           deviceID := (if deviceID st = None
                                        then Some (Number (snd (report_seq_and_id buf)))
                                        else deviceID st),
                           seqNum := Some (fst (report_seq_and_id buf)),
                           lastAlive := now\<rparr>)"
  have run: "RecievedData d e now st buf = Inr ?st'" for d :: "'a decoder"
    using assms by (rule RecievedData_premature_report)
  have other: "RecievedData dec e now st buf' = Inr ?st'"
    if "js_slice buf' 0 2 = [0x40, 0x50]" "reportType (CheckReportType st buf') = Some ''ascii''"
      "report_seq_and_id buf' = report_seq_and_id buf" for buf'
    using RecievedData_premature_report[OF assms(1) that(1,2), of dec e now] that(3) by simp
  have ts: "timeSeriesWrites ?st' = timeSeriesWrites st" and ff: "reportFinalFormat ?st' = None"
    using assms(1) by (simp_all add: SendACK_fields)
  show ?thesis
  proof (intro exI[of _ ?st'] conjI allI impI)
    show "RecievedData dec e now st buf = Inr ?st'" by (rule run)
    show "timeSeriesWrites ?st' = timeSeriesWrites st" by (rule ts)
    show "reportFinalFormat ?st' = None" by (rule ff)
    show "RecievedData dec' e now st buf = Inr ?st'" for dec' by (rule run)
  next
    fix buf' later
    assume h: "js_slice buf' 0 2 = [0x40, 0x50]
                 \<and> reportType (CheckReportType st buf') = Some ''ascii''
                 \<and> report_seq_and_id buf' = report_seq_and_id buf"
    then show "RecievedData dec e now st buf' = Inr ?st'" using other by blast
    then show "RecievedAll dec e st ((now, buf') # later)
                 = RecievedAll dec e st ((now, buf) # later)"
      using run[of dec] by simp
  qed
qed

lemma report_a_header:
  "GetHeaderValueAscii report_a 3 = (''ABCD'', 8)"
  "GetHeaderValueAscii report_a 8 = (''12'', 11)"
  "GetHeaderValueAscii_Int report_a 11 = (Num 34, 14)"
  "GetHeaderValueAscii_Int report_a 14 = (Num 5678, 19)"
  by code_simp+

lemma report_b_header:
  "GetHeaderValueAscii report_b 3 = (''ABCD'', 8)"
  "GetHeaderValueAscii report_b 8 = (''12'', 11)"
  "GetHeaderValueAscii_Int report_b 11 = (Num 34, 14)"
  "GetHeaderValueAscii_Int report_b 14 = (Num 5678, 19)"
  by code_simp+

lemma sample_reports:
  "js_slice report_a 0 2 = [0x40, 0x50]" "js_slice report_b 0 2 = [0x40, 0x50]"
  "js_slice report_a 2 3 = [0x2C]" "js_slice report_b 2 3 = [0x2C]"
  "report_a \<noteq> report_b"
  by code_simp+

lemma sample_reports_header:
  "report_seq_and_id report_a = (Num 34, Num 5678)"
  "report_seq_and_id report_b = (Num 34, Num 5678)"
  by (simp_all add: report_seq_and_id_def ascii_header_def report_a_header report_b_header)

theorem premature_report_dropped_witness:
  "reportFinalFormat fresh = None \<and> js_slice report_a 0 2 = [0x40, 0x50]
   \<and> reportType (CheckReportType fresh report_a) = Some ''ascii''
   \<and> report_a \<noteq> report_b
   \<and> (\<exists>st'. RecievedData sample_decoder sample_env 1 fresh report_a = Inr st'
         \<and> timeSeriesWrites st' = [] \<and> reportFinalFormat st' = None
         \<and> RecievedData sample_decoder sample_env 1 fresh report_b = Inr st')"
proof -
  have a: "reportFinalFormat fresh = None" and t: "timeSeriesWrites fresh = []"
    and r: "reportType fresh = None"
    by (simp_all add: fresh_def ClientSocket_constructor_def)
  have c: "reportType (CheckReportType fresh report_a) = Some ''ascii''"
    and c': "reportType (CheckReportType fresh report_b) = Some ''ascii''"
    using r by (simp_all add: CheckReportType_def sample_reports)
  note ne = sample_reports(5)
  from premature_report_dropped[OF a sample_reports(1) c, of sample_decoder sample_env 1]
  obtain st' where "RecievedData sample_decoder sample_env 1 fresh report_a = Inr st'"
    "timeSeriesWrites st' = timeSeriesWrites fresh" "reportFinalFormat st' = None"
    "\<And>buf'. js_slice buf' 0 2 = [0x40, 0x50] \<Longrightarrow>
        reportType (CheckReportType fresh buf') = Some ''ascii'' \<Longrightarrow>
        report_seq_and_id buf' = report_seq_and_id report_a \<Longrightarrow>
        RecievedData sample_decoder sample_env 1 fresh buf' = Inr st'"
    by blast
  then show ?thesis
    using a c c' ne t sample_reports(1,2) sample_reports_header by auto
qed

section \<open>Negotiating the report format\<close>

text \<open>
  A response line \<open>cmd=args\<close> of one of the three format commands is saved and the
  status updated; \<open>negotiation_core\<close> gives the type and the final format after the three
  responses, in each of their six orders, from what the three format arguments are.
\<close>

lemma strip_outer_quotes_quoted: "f \<noteq> [] \<Longrightarrow> strip_outer_quotes (quoted f) \<noteq> []"
  by (simp add: strip_outer_quotes_def quoted_def)

lemma strip_outer_quotes_empty:
  "strip_outer_quotes [] = []" "strip_outer_quotes (quoted []) = []"
  by (simp_all add: strip_outer_quotes_def quoted_def)

lemma remove_quotes_quoted: "remove_quotes (quoted f) = remove_quotes f"
  by (simp add: remove_quotes_def quoted_def)

lemma ReportFormatSplit_quoted:
  "ReportFormatSplit (quoted f) = tl (js_split ''%'' (remove_quotes f))"
  by (simp add: ReportFormatSplit_def remove_quotes_quoted)

lemma cmd_distinct:
  "cmdForm \<noteq> cmdJ1708" "cmdForm \<noteq> cmdJ1939" "cmdJ1708 \<noteq> cmdJ1939"
  "cmdJ1708 \<noteq> cmdForm" "cmdJ1939 \<noteq> cmdForm" "cmdJ1939 \<noteq> cmdJ1708"
  by (simp_all add: cmdForm_def cmdJ1708_def cmdJ1939_def)

lemma cmd_no_equals:
  "CHR ''='' \<notin> set cmdForm" "CHR ''='' \<notin> set cmdJ1708" "CHR ''='' \<notin> set cmdJ1939"
  by (simp_all add: cmdForm_def cmdJ1708_def cmdJ1939_def)

lemma cmd_not_blank:
  "\<not> IsStringEmptyOrSpaces (cmdForm @ s)" "\<not> IsStringEmptyOrSpaces (cmdJ1708 @ s)"
  "\<not> IsStringEmptyOrSpaces (cmdJ1939 @ s)"
  by (simp_all add: IsStringEmptyOrSpaces_def cmdForm_def cmdJ1708_def cmdJ1939_def)

lemma HandleOtherLines_response:
  assumes "cmd = cmdForm \<or> cmd = cmdJ1708 \<or> cmd = cmdJ1939" and "CHR ''='' \<notin> set arg"
  shows "HandleOtherLines st ((cmd @ CHR ''='' # arg) # ls) =
           (case SaveReportFormat st cmd arg of
              Inl e \<Rightarrow> Inl e
            | Inr st1 \<Rightarrow> HandleOtherLines (snd (UpdateReportFormatStatus st1)) ls)"
proof -
  have ne: "CHR ''='' \<notin> set cmd" using assms(1) cmd_no_equals by auto
  have sp: "js_split ''='' (cmd @ CHR ''='' # arg) = [cmd, arg]"
    using js_split_two[OF ne assms(2)] by simp
  have nb: "\<not> IsStringEmptyOrSpaces (cmd @ CHR ''='' # arg)"
    using assms(1) cmd_not_blank by auto
  show ?thesis
    using assms(1) by (auto simp: sp nb)
qed

declare HandleOtherLines.simps(2) [simp del]

lemma negotiation_core:
  assumes u: "isReportCustom st = None" "isReportJ1708 st = None" "isReportJ1939 st = None"
    and a: "nth_opt (js_split '','' aF) 3 = Some rF" "nth_opt (js_split '','' a8) 0 = Some r8"
      "nth_opt (js_split '','' a9) 1 = Some r9"
    and n: "CHR ''='' \<notin> set aF" "CHR ''='' \<notin> set a8" "CHR ''='' \<notin> set a9"
    and o: "lines \<in> set (orders3 (cmdForm @ CHR ''='' # aF) (cmdJ1708 @ CHR ''='' # a8)
                             (cmdJ1939 @ CHR ''='' # a9))"
  shows "\<exists>st'. HandleOtherLines st lines = Inr st'
           \<and> UpdateReportFormatStatus st' = (True, st')
           \<and> reportFormatType st' =
               Some (if strip_outer_quotes rF \<noteq> [] \<and> strip_outer_quotes r8 = []
                        \<and> strip_outer_quotes r9 = [] then ''custom''
                     else if strip_outer_quotes rF = [] \<and> strip_outer_quotes r8 \<noteq> []
                        \<and> strip_outer_quotes r9 = [] then ''j1708''
                     else if strip_outer_quotes rF = [] \<and> strip_outer_quotes r8 = []
                        \<and> strip_outer_quotes r9 \<noteq> [] then ''j1939''
                     else ''base'')
           \<and> reportFinalFormat st' =
               Some (if strip_outer_quotes rF \<noteq> [] \<and> strip_outer_quotes r8 = []
                        \<and> strip_outer_quotes r9 = [] then reportBaseFormat @ ReportFormatSplit rF
                     else if strip_outer_quotes rF = [] \<and> strip_outer_quotes r8 \<noteq> []
                        \<and> strip_outer_quotes r9 = [] then reportBaseFormat @ ReportFormatSplit r8
                     else if strip_outer_quotes rF = [] \<and> strip_outer_quotes r8 = []
                        \<and> strip_outer_quotes r9 \<noteq> [] then reportBaseFormat @ ReportFormatSplit r9
                     else reportBaseFormat)"
proof -
  note resp = HandleOtherLines_response[OF _ n(1)] HandleOtherLines_response[OF _ n(2)]
    HandleOtherLines_response[OF _ n(3)]
  note defs = SaveReportFormat_def UpdateReportFormatStatus_def format_or_empty_def Let_def
  have a9: "nth_opt (js_split '','' a9) (Suc 0) = Some r9" using a(3) by simp
  consider
      (FJK) "lines = [cmdForm @ CHR ''='' # aF, cmdJ1708 @ CHR ''='' # a8, cmdJ1939 @ CHR ''='' # a9]"
    | (FKJ) "lines = [cmdForm @ CHR ''='' # aF, cmdJ1939 @ CHR ''='' # a9, cmdJ1708 @ CHR ''='' # a8]"
    | (JFK) "lines = [cmdJ1708 @ CHR ''='' # a8, cmdForm @ CHR ''='' # aF, cmdJ1939 @ CHR ''='' # a9]"
    | (JKF) "lines = [cmdJ1708 @ CHR ''='' # a8, cmdJ1939 @ CHR ''='' # a9, cmdForm @ CHR ''='' # aF]"
    | (KFJ) "lines = [cmdJ1939 @ CHR ''='' # a9, cmdForm @ CHR ''='' # aF, cmdJ1708 @ CHR ''='' # a8]"
    | (KJF) "lines = [cmdJ1939 @ CHR ''='' # a9, cmdJ1708 @ CHR ''='' # a8, cmdForm @ CHR ''='' # aF]"
    using o by (auto simp: orders3_def)
  then show ?thesis
  proof cases
    case FJK
    show ?thesis unfolding FJK
      by (cases "strip_outer_quotes rF = []"; cases "strip_outer_quotes r8 = []";
          cases "strip_outer_quotes r9 = []")
         (simp_all add: resp defs cmd_distinct u a a9)
  next
    case FKJ
    show ?thesis unfolding FKJ
      by (cases "strip_outer_quotes rF = []"; cases "strip_outer_quotes r8 = []";
          cases "strip_outer_quotes r9 = []")
         (simp_all add: resp defs cmd_distinct u a a9)
  next
    case JFK
    show ?thesis unfolding JFK
      by (cases "strip_outer_quotes rF = []"; cases "strip_outer_quotes r8 = []";
          cases "strip_outer_quotes r9 = []")
         (simp_all add: resp defs cmd_distinct u a a9)
  next
    case JKF
    show ?thesis unfolding JKF
      by (cases "strip_outer_quotes rF = []"; cases "strip_outer_quotes r8 = []";
          cases "strip_outer_quotes r9 = []")
         (simp_all add: resp defs cmd_distinct u a a9)
  next
    case KFJ
    show ?thesis unfolding KFJ
      by (cases "strip_outer_quotes rF = []"; cases "strip_outer_quotes r8 = []";
          cases "strip_outer_quotes r9 = []")
         (simp_all add: resp defs cmd_distinct u a a9)
  next
    case KJF
    show ?thesis unfolding KJF
      by (cases "strip_outer_quotes rF = []"; cases "strip_outer_quotes r8 = []";
          cases "strip_outer_quotes r9 = []")
         (simp_all add: resp defs cmd_distinct u a a9)
  qed
qed

lemma quoted_set: "set (quoted f) = insert (CHR 0x22) (set f)"
  by (auto simp: quoted_def)

lemma form_args_facts:
  assumes "CHR '','' \<notin> set f" and "CHR ''='' \<notin> set f"
  shows "nth_opt (js_split '','' (form_args f)) 3 = Some (quoted f)"
    and "CHR ''='' \<notin> set (form_args f)"
proof -
  have "CHR '','' \<notin> set (quoted f)" using assms(1) by (simp add: quoted_set)
  then show "nth_opt (js_split '','' (form_args f)) 3 = Some (quoted f)"
    by (simp add: form_args_def js_split_def split_acc_no_sep nth_opt_def)
  show "CHR ''='' \<notin> set (form_args f)"
    using assms(2) by (simp add: form_args_def quoted_set)
qed

lemma j1708_args_facts:
  assumes "CHR '','' \<notin> set f" and "CHR ''='' \<notin> set f"
  shows "nth_opt (js_split '','' (j1708_args f)) 0 = Some (quoted f)"
    and "CHR ''='' \<notin> set (j1708_args f)"
proof -
  have "CHR '','' \<notin> set (quoted f)" using assms(1) by (simp add: quoted_set)
  then show "nth_opt (js_split '','' (j1708_args f)) 0 = Some (quoted f)"
    by (simp add: j1708_args_def js_split_def split_acc_no_sep nth_opt_def)
  show "CHR ''='' \<notin> set (j1708_args f)"
    using assms(2) by (simp add: j1708_args_def quoted_set)
qed

lemma fmsc_args_facts:
  assumes "CHR '','' \<notin> set f" and "CHR ''='' \<notin> set f"
  shows "nth_opt (js_split '','' (fmsc_args f)) 1 = Some (quoted f)"
    and "CHR ''='' \<notin> set (fmsc_args f)"
proof -
  have "CHR '','' \<notin> set (quoted f)" using assms(1) by (simp add: quoted_set)
  then show "nth_opt (js_split '','' (fmsc_args f)) 1 = Some (quoted f)"
    by (simp add: fmsc_args_def js_split_def split_acc_no_sep nth_opt_def)
  show "CHR ''='' \<notin> set (fmsc_args f)"
    using assms(2) by (simp add: fmsc_args_def quoted_set)
qed

lemma fresh_flags:
  "isReportCustom fresh = None" "isReportJ1708 fresh = None" "isReportJ1939 fresh = None"
  by (simp_all add: fresh_def ClientSocket_constructor_def)

lemma custom_only:
  assumes "CHR '','' \<notin> set f" and "CHR ''='' \<notin> set f" and "f \<noteq> []"
  shows "\<exists>st'. HandleOtherLines fresh
                 [cmdForm @ ''='' @ form_args f, cmdJ1708 @ ''='' @ j1708_args [],
                  cmdJ1939 @ ''='' @ fmsc_args []] = Inr st'
           \<and> reportFormatType st' = Some ''custom''
           \<and> reportFinalFormat st' = Some (reportBaseFormat @ ReportFormatSplit (quoted f))"
proof -
  have o: "[cmdForm @ CHR ''='' # form_args f, cmdJ1708 @ CHR ''='' # j1708_args [],
            cmdJ1939 @ CHR ''='' # fmsc_args []]
           \<in> set (orders3 (cmdForm @ CHR ''='' # form_args f) (cmdJ1708 @ CHR ''='' # j1708_args [])
                          (cmdJ1939 @ CHR ''='' # fmsc_args []))"
    by (simp add: orders3_def)
  from negotiation_core[OF fresh_flags form_args_facts(1)[OF assms(1,2)]
      j1708_args_facts(1)[of "[]"] fmsc_args_facts(1)[of "[]"]
      form_args_facts(2)[OF assms(1,2)] j1708_args_facts(2)[of "[]"] fmsc_args_facts(2)[of "[]"] o]
  show ?thesis
    using strip_outer_quotes_quoted[OF assms(3)] by (auto simp: strip_outer_quotes_empty)
qed

lemma sample_splits:
  "ReportFormatSplit (quoted ''MV%BV'') = [''BV'']"
  "js_split ''%'' (remove_quotes ''MV%BV'') = [''MV'', ''BV'']"
  "ReportFormatSplit (quoted ''%MV%BV'') = [''MV'', ''BV'']"
  "js_split ''%'' (remove_quotes ''%MV%BV'') = [[], ''MV'', ''BV'']"
  by code_simp+

text \<open>
  Claim C2, as stated, fails. With the format string \<open>"MV%BV"\<close> for \<open>$FORM\<close> and none for
  the other two, the final format is the base field names followed by \<open>BV\<close> alone, not by
  the split \<open>MV\<close>, \<open>BV\<close>; with \<open>"%MV%BV"\<close> it is followed by \<open>MV\<close>, \<open>BV\<close>, not by the
  split, which starts with the empty string.
\<close>

theorem format_split_counterexample:
  "(\<exists>st'. HandleOtherLines fresh
            [cmdForm @ ''='' @ form_args ''MV%BV'', cmdJ1708 @ ''='' @ j1708_args [],
             cmdJ1939 @ ''='' @ fmsc_args []] = Inr st'
      \<and> reportFormatType st' = Some ''custom''
      \<and> reportFinalFormat st' = Some (reportBaseFormat @ [''BV''])
      \<and> reportFinalFormat st'
          \<noteq> Some (reportBaseFormat @ js_split ''%'' (remove_quotes ''MV%BV'')))
   \<and> (\<exists>st'. HandleOtherLines fresh
            [cmdForm @ ''='' @ form_args ''%MV%BV'', cmdJ1708 @ ''='' @ j1708_args [],
             cmdJ1939 @ ''='' @ fmsc_args []] = Inr st'
      \<and> reportFormatType st' = Some ''custom''
      \<and> reportFinalFormat st' = Some (reportBaseFormat @ [''MV'', ''BV''])
      \<and> reportFinalFormat st'
          \<noteq> Some (reportBaseFormat @ js_split ''%'' (remove_quotes ''%MV%BV'')))"
proof
  from custom_only[of "''MV%BV''"] obtain st' where
    "HandleOtherLines fresh
            [cmdForm @ ''='' @ form_args ''MV%BV'', cmdJ1708 @ ''='' @ j1708_args [],
             cmdJ1939 @ ''='' @ fmsc_args []] = Inr st'"
    "reportFormatType st' = Some ''custom''"
    "reportFinalFormat st' = Some (reportBaseFormat @ ReportFormatSplit (quoted ''MV%BV''))"
    by auto
  then show "\<exists>st'. HandleOtherLines fresh
            [cmdForm @ ''='' @ form_args ''MV%BV'', cmdJ1708 @ ''='' @ j1708_args [],
             cmdJ1939 @ ''='' @ fmsc_args []] = Inr st'
      \<and> reportFormatType st' = Some ''custom''
      \<and> reportFinalFormat st' = Some (reportBaseFormat @ [''BV''])
      \<and> reportFinalFormat st'
          \<noteq> Some (reportBaseFormat @ js_split ''%'' (remove_quotes ''MV%BV''))"
    by (simp add: sample_splits)
next
  from custom_only[of "''%MV%BV''"] obtain st' where
    "HandleOtherLines fresh
            [cmdForm @ ''='' @ form_args ''%MV%BV'', cmdJ1708 @ ''='' @ j1708_args [],
             cmdJ1939 @ ''='' @ fmsc_args []] = Inr st'"
    "reportFormatType st' = Some ''custom''"
    "reportFinalFormat st' = Some (reportBaseFormat @ ReportFormatSplit (quoted ''%MV%BV''))"
    by auto
  then show "\<exists>st'. HandleOtherLines fresh
            [cmdForm @ ''='' @ form_args ''%MV%BV'', cmdJ1708 @ ''='' @ j1708_args [],
             cmdJ1939 @ ''='' @ fmsc_args []] = Inr st'
      \<and> reportFormatType st' = Some ''custom''
      \<and> reportFinalFormat st' = Some (reportBaseFormat @ [''MV'', ''BV''])
      \<and> reportFinalFormat st'
          \<noteq> Some (reportBaseFormat @ js_split ''%'' (remove_quotes ''%MV%BV''))"
    by (simp add: sample_splits)
qed

text \<open>
  Claim C2, as amended. When the three responses have arrived, in any order, from a state
  where the three flags are unknown, \<open>UpdateReportFormatStatus\<close> has resolved the format:
  if exactly one response carries a non-empty quoted format string and the other two
  carry none, the type is that customization and the final format is the base field names
  followed by the split of that format string (quotes removed) at \<open>%\<close> without the first
  element of the split; if all three carry none, the type is base and the final format
  is the base field names.
\<close>

theorem format_negotiation:
  assumes "isReportCustom st = None" and "isReportJ1708 st = None" and "isReportJ1939 st = None"
    and "nth_opt (js_split '','' aF) 3 = Some rF" and "nth_opt (js_split '','' a8) 0 = Some r8"
    and "nth_opt (js_split '','' a9) 1 = Some r9"
    and "CHR ''='' \<notin> set aF" and "CHR ''='' \<notin> set a8" and "CHR ''='' \<notin> set a9"
    and "lines \<in> set (orders3 (cmdForm @ ''='' @ aF) (cmdJ1708 @ ''='' @ a8)
                              (cmdJ1939 @ ''='' @ a9))"
  shows "\<exists>st'. HandleOtherLines st lines = Inr st'
           \<and> UpdateReportFormatStatus st' = (True, st')
           \<and> (f \<noteq> [] \<and> rF = quoted f \<and> r8 \<in> {[], quoted []} \<and> r9 \<in> {[], quoted []}
                \<longrightarrow> reportFormatType st' = Some ''custom''
                  \<and> reportFinalFormat st'
                      = Some (reportBaseFormat @ tl (js_split ''%'' (remove_quotes f))))
           \<and> (f \<noteq> [] \<and> rF \<in> {[], quoted []} \<and> r8 = quoted f \<and> r9 \<in> {[], quoted []}
                \<longrightarrow> reportFormatType st' = Some ''j1708''
                  \<and> reportFinalFormat st'
                      = Some (reportBaseFormat @ tl (js_split ''%'' (remove_quotes f))))
           \<and> (f \<noteq> [] \<and> rF \<in> {[], quoted []} \<and> r8 \<in> {[], quoted []} \<and> r9 = quoted f
                \<longrightarrow> reportFormatType st' = Some ''j1939''
                  \<and> reportFinalFormat st'
                      = Some (reportBaseFormat @ tl (js_split ''%'' (remove_quotes f))))
           \<and> (rF \<in> {[], quoted []} \<and> r8 \<in> {[], quoted []} \<and> r9 \<in> {[], quoted []}
                \<longrightarrow> reportFormatType st' = Some ''base''
                  \<and> reportFinalFormat st' = Some reportBaseFormat)"
proof -
  have o: "lines \<in> set (orders3 (cmdForm @ CHR ''='' # aF) (cmdJ1708 @ CHR ''='' # a8)
                             (cmdJ1939 @ CHR ''='' # a9))"
    using assms(10) by simp
  from negotiation_core[OF assms(1-9) o] obtain st' where
    run: "HandleOtherLines st lines = Inr st'" and fp: "UpdateReportFormatStatus st' = (True, st')"
    and ty: "reportFormatType st' =
               Some (if strip_outer_quotes rF \<noteq> [] \<and> strip_outer_quotes r8 = []
                        \<and> strip_outer_quotes r9 = [] then ''custom''
                     else if strip_outer_quotes rF = [] \<and> strip_outer_quotes r8 \<noteq> []
                        \<and> strip_outer_quotes r9 = [] then ''j1708''
                     else if strip_outer_quotes rF = [] \<and> strip_outer_quotes r8 = []
                        \<and> strip_outer_quotes r9 \<noteq> [] then ''j1939''
                     else ''base'')"
    and fm: "reportFinalFormat st' =
               Some (if strip_outer_quotes rF \<noteq> [] \<and> strip_outer_quotes r8 = []
                        \<and> strip_outer_quotes r9 = [] then reportBaseFormat @ ReportFormatSplit rF
                     else if strip_outer_quotes rF = [] \<and> strip_outer_quotes r8 \<noteq> []
                        \<and> strip_outer_quotes r9 = [] then reportBaseFormat @ ReportFormatSplit r8
                     else if strip_outer_quotes rF = [] \<and> strip_outer_quotes r8 = []
                        \<and> strip_outer_quotes r9 \<noteq> [] then reportBaseFormat @ ReportFormatSplit r9
                     else reportBaseFormat)"
    by blast
  have absent: "strip_outer_quotes r = []" if "r \<in> {[], quoted []}" for r
    using that strip_outer_quotes_empty by auto
  have present: "strip_outer_quotes r \<noteq> []" if "f \<noteq> []" "r = quoted f" for r
    using that strip_outer_quotes_quoted by simp
  have custom: "reportFormatType st' = Some ''custom''
                  \<and> reportFinalFormat st'
                      = Some (reportBaseFormat @ tl (js_split ''%'' (remove_quotes f)))"
    if "f \<noteq> [] \<and> rF = quoted f \<and> r8 \<in> {[], quoted []} \<and> r9 \<in> {[], quoted []}"
    using that ty fm absent[of r8] absent[of r9] present[of rF]
    by (simp add: ReportFormatSplit_quoted)
  have j1708: "reportFormatType st' = Some ''j1708''
                  \<and> reportFinalFormat st'
                      = Some (reportBaseFormat @ tl (js_split ''%'' (remove_quotes f)))"
    if "f \<noteq> [] \<and> rF \<in> {[], quoted []} \<and> r8 = quoted f \<and> r9 \<in> {[], quoted []}"
    using that ty fm absent[of rF] absent[of r9] present[of r8]
    by (simp add: ReportFormatSplit_quoted)
  have j1939: "reportFormatType st' = Some ''j1939''
                  \<and> reportFinalFormat st'
                      = Some (reportBaseFormat @ tl (js_split ''%'' (remove_quotes f)))"
    if "f \<noteq> [] \<and> rF \<in> {[], quoted []} \<and> r8 \<in> {[], quoted []} \<and> r9 = quoted f"
    using that ty fm absent[of rF] absent[of r8] present[of r9]
    by (simp add: ReportFormatSplit_quoted)
  have base: "reportFormatType st' = Some ''base'' \<and> reportFinalFormat st' = Some reportBaseFormat"
    if "rF \<in> {[], quoted []} \<and> r8 \<in> {[], quoted []} \<and> r9 \<in> {[], quoted []}"
    using that ty fm absent[of rF] absent[of r8] absent[of r9] by simp
  show ?thesis
    using run fp custom j1708 j1939 base by blast
qed

theorem format_negotiation_witness:
  "isReportCustom fresh = None \<and> isReportJ1708 fresh = None \<and> isReportJ1939 fresh = None
   \<and> (\<exists>st'. HandleOtherLines fresh
               [cmdJ1708 @ ''='' @ j1708_args [], cmdForm @ ''='' @ form_args ''%MV%BV'',
                cmdJ1939 @ ''='' @ fmsc_args []] = Inr st'
         \<and> UpdateReportFormatStatus st' = (True, st')
         \<and> reportFormatType st' = Some ''custom''
         \<and> reportFinalFormat st' = Some (reportBaseFormat @ [''MV'', ''BV'']))
   \<and> (\<exists>st'. HandleOtherLines fresh
               [cmdJ1939 @ ''='' @ fmsc_args [], cmdJ1708 @ ''='' @ j1708_args [],
                cmdForm @ ''='' @ form_args []] = Inr st'
         \<and> UpdateReportFormatStatus st' = (True, st')
         \<and> reportFormatType st' = Some ''base''
         \<and> reportFinalFormat st' = Some reportBaseFormat)"
proof -
  have split: "tl (js_split ''%'' (remove_quotes ''%MV%BV'')) = [''MV'', ''BV'']"
    by (simp add: sample_splits)
  have o1: "[cmdJ1708 @ ''='' @ j1708_args [], cmdForm @ ''='' @ form_args ''%MV%BV'',
             cmdJ1939 @ ''='' @ fmsc_args []]
            \<in> set (orders3 (cmdForm @ ''='' @ form_args ''%MV%BV'') (cmdJ1708 @ ''='' @ j1708_args [])
                           (cmdJ1939 @ ''='' @ fmsc_args []))"
    and o2: "[cmdJ1939 @ ''='' @ fmsc_args [], cmdJ1708 @ ''='' @ j1708_args [],
              cmdForm @ ''='' @ form_args []]
            \<in> set (orders3 (cmdForm @ ''='' @ form_args []) (cmdJ1708 @ ''='' @ j1708_args [])
                           (cmdJ1939 @ ''='' @ fmsc_args []))"
    by (simp_all add: orders3_def)
  have c: "CHR '','' \<notin> set ''%MV%BV''" "CHR ''='' \<notin> set ''%MV%BV''" by simp_all
  from format_negotiation[OF fresh_flags form_args_facts(1)[OF c]
      j1708_args_facts(1)[of "[]"] fmsc_args_facts(1)[of "[]"]
      form_args_facts(2)[OF c] j1708_args_facts(2)[of "[]"] fmsc_args_facts(2)[of "[]"] o1,
      of "''%MV%BV''"]
  have one: "\<exists>st'. HandleOtherLines fresh
               [cmdJ1708 @ ''='' @ j1708_args [], cmdForm @ ''='' @ form_args ''%MV%BV'',
                cmdJ1939 @ ''='' @ fmsc_args []] = Inr st'
         \<and> UpdateReportFormatStatus st' = (True, st')
         \<and> reportFormatType st' = Some ''custom''
         \<and> reportFinalFormat st' = Some (reportBaseFormat @ [''MV'', ''BV''])"
    by (auto simp: split)
  from format_negotiation[OF fresh_flags form_args_facts(1)[of "[]"]
      j1708_args_facts(1)[of "[]"] fmsc_args_facts(1)[of "[]"]
      form_args_facts(2)[of "[]"] j1708_args_facts(2)[of "[]"] fmsc_args_facts(2)[of "[]"] o2,
      of "[]"]
  have two: "\<exists>st'. HandleOtherLines fresh
               [cmdJ1939 @ ''='' @ fmsc_args [], cmdJ1708 @ ''='' @ j1708_args [],
                cmdForm @ ''='' @ form_args []] = Inr st'
         \<and> UpdateReportFormatStatus st' = (True, st')
         \<and> reportFormatType st' = Some ''base''
         \<and> reportFinalFormat st' = Some reportBaseFormat"
    by auto
  show ?thesis using fresh_flags one two by simp
qed

end
